theory Spec2Isabelle
  imports Main
begin

section \<open>Data model\<close>

text \<open>
  Modelled from the spec: \<^verbatim>\<open>blog/models.py\<close> is not among the sources, so the
  tables follow the data model of the specification. A foreign key is the primary key
  of the row it refers to; a timestamp is an integer. The table of users belongs to
  the authentication framework.
\<close>

type_synonym timestamp = int

record user =
  user_id :: nat
  username :: string
  is_superuser :: bool

record category =
  category_id :: nat
  slug :: string
  category_is_published :: bool

record post =
  post_id :: nat
  title :: string
  post_text :: string
  pub_date :: timestamp
  is_published :: bool
  post_category :: nat
  location :: "nat option"
  post_author :: nat
  post_created_at :: timestamp

record comment =
  comment_id :: nat
  comment_text :: string
  comment_post :: nat
  comment_author :: nat
  comment_created_at :: timestamp

text \<open>
  The persistent store: one list of rows per table, in the order of insertion, and the
  next primary key of the two tables the views insert into.
\<close>

record database =
  posts :: "post list"
  comments :: "comment list"
  categories :: "category list"
  users :: "user list"
  next_post_id :: nat
  next_comment_id :: nat

section \<open>\<^verbatim>\<open>blog/querysets.py\<close>: PostQuerySet\<close>

text \<open>
  A queryset of posts is the list of rows it selects. \<^verbatim>\<open>filter\<close> keeps the rows
  that satisfy the lookup and their order. The lookup \<^verbatim>\<open>category__is_published=True\<close>
  joins the category table on the post's foreign key: a post whose key finds no
  category row is not selected.
\<close>

definition category_published :: "database \<Rightarrow> post list \<Rightarrow> post list" where
  "category_published db qs =
     filter (\<lambda>p. case find (\<lambda>c. category_id c = post_category p) (categories db) of
                   None \<Rightarrow> False
                 | Some c \<Rightarrow> category_is_published c = True) qs"

definition published :: "post list \<Rightarrow> post list" where
  "published qs = filter (\<lambda>p. is_published p = True) qs"

definition published_up_to_now :: "timestamp \<Rightarrow> post list \<Rightarrow> post list" where
  "published_up_to_now now qs = filter (\<lambda>p. pub_date p \<le> now) qs"

definition available :: "database \<Rightarrow> timestamp \<Rightarrow> post list \<Rightarrow> post list" where
  "available db now qs = published_up_to_now now (published (category_published db qs))"

text \<open>
  \<^verbatim>\<open>annotate(comment_count=Count('comments'))\<close>: the posts are left-joined with their
  comments (a post without comments gives one row whose comment is null), the rows are
  grouped by post, and \<^verbatim>\<open>Count\<close> counts the rows of a group whose comment is not
  null.
\<close>

definition left_join_comments :: "database \<Rightarrow> post \<Rightarrow> (post \<times> comment option) list" where
  "left_join_comments db p =
     (case filter (\<lambda>c. comment_post c = post_id p) (comments db) of
        [] \<Rightarrow> [(p, None)]
      | c # cs \<Rightarrow> map (\<lambda>c'. (p, Some c')) (c # cs))"

definition Count :: "(post \<times> comment option) list \<Rightarrow> nat" where
  "Count rows = length (filter (\<lambda>row. snd row \<noteq> None) rows)"

type_synonym annotated_post = "post \<times> nat"

definition with_comment_count :: "database \<Rightarrow> post list \<Rightarrow> annotated_post list" where
  "with_comment_count db qs = map (\<lambda>p. (p, Count (left_join_comments db p))) qs"

section \<open>\<^verbatim>\<open>blog/managers.py\<close>: PostManager\<close>

text \<open>The manager's queryset is the whole table; its methods delegate to the queryset.\<close>

definition get_queryset :: "database \<Rightarrow> post list" where
  "get_queryset db = posts db"

definition objects_available :: "database \<Rightarrow> timestamp \<Rightarrow> post list" where
  "objects_available db now = available db now (get_queryset db)"

definition objects_with_comment_count :: "database \<Rightarrow> annotated_post list" where
  "objects_with_comment_count db = with_comment_count db (get_queryset db)"

section \<open>Python values and exceptions\<close>

datatype exn =
  Http404 | PermissionDenied | ValueError | TypeError | ZeroDivisionError
  | PageNotAnInteger | EmptyPage

datatype pyobj = PyNone | PyStr string | PyInt int

text \<open>
  The builtin \<^verbatim>\<open>int\<close>. What it reads from a string differs between interpreters
  (the white space and the digits of Unicode it accepts, the limit on the number of
  digits), so its action on strings is a parameter of the model: the integer it
  returns, or \<open>None\<close> where it raises \<^verbatim>\<open>ValueError\<close>. A string is the list of its
  bytes. \<^verbatim>\<open>int(None)\<close> raises \<^verbatim>\<open>TypeError\<close>, and an integer is returned as it is.
\<close>

type_synonym int_builtin = "string \<Rightarrow> int option"

fun py_int :: "int_builtin \<Rightarrow> pyobj \<Rightarrow> exn + int" where
  "py_int str_int PyNone = Inl TypeError"
| "py_int str_int (PyStr s) = (case str_int s of None \<Rightarrow> Inl ValueError | Some n \<Rightarrow> Inr n)"
| "py_int str_int (PyInt n) = Inr n"

section \<open>The framework's paginator\<close>

text \<open>
  \<^verbatim>\<open>django.core.paginator.Paginator\<close>, as far as \<^verbatim>\<open>paginate_queryset\<close> uses it:
  the constructor with its defaults, \<^verbatim>\<open>count\<close>, \<^verbatim>\<open>num_pages\<close>,
  \<^verbatim>\<open>validate_number\<close>, \<^verbatim>\<open>page\<close> and \<^verbatim>\<open>get_page\<close>. The page keeps the
  object list of the slice, its number and its paginator.
\<close>

record 'a paginator =
  paginator_object_list :: "'a list"
  per_page :: int
  orphans :: int
  allow_empty_first_page :: bool

record ('a, 'b) page =
  object_list :: "'a list"
  number :: int
  paginator :: "'b paginator"

definition Paginator :: "'a list \<Rightarrow> int \<Rightarrow> 'a paginator" where
  "Paginator queryset n =
     \<lparr>paginator_object_list = queryset, per_page = n, orphans = 0,
      allow_empty_first_page = True\<rparr>"

definition count :: "'a paginator \<Rightarrow> int" where
  "count p = int (length (paginator_object_list p))"

text \<open>\<^verbatim>\<open>ceil(hits / per_page)\<close>; the division raises when \<^verbatim>\<open>per_page\<close> is zero.\<close>

definition num_pages :: "'a paginator \<Rightarrow> exn + int" where
  "num_pages p =
     (if count p = 0 \<and> \<not> allow_empty_first_page p then Inr 0
      else if per_page p = 0 then Inl ZeroDivisionError
      else Inr (- ((- max 1 (count p - orphans p)) div per_page p)))"

definition validate_number :: "int_builtin \<Rightarrow> 'a paginator \<Rightarrow> pyobj \<Rightarrow> exn + int" where
  "validate_number str_int p n =
     (case py_int str_int n of
        Inl e \<Rightarrow> if e = TypeError \<or> e = ValueError then Inl PageNotAnInteger else Inl e
      | Inr k \<Rightarrow>
          if k < 1 then Inl EmptyPage
          else (case num_pages p of
                  Inl e \<Rightarrow> Inl e
                | Inr np \<Rightarrow> if k > np then Inl EmptyPage else Inr k))"

text \<open>
  A slice \<^verbatim>\<open>[start:stop]\<close> of a queryset: a negative bound is refused, and the rows
  from \<^verbatim>\<open>start\<close> up to, not including, \<^verbatim>\<open>stop\<close> are selected.
\<close>

definition getitem_slice :: "'a list \<Rightarrow> int \<Rightarrow> int \<Rightarrow> exn + 'a list" where
  "getitem_slice xs start stop =
     (if start < 0 \<or> stop < 0 then Inl ValueError
      else Inr (take (nat (stop - start)) (drop (nat start) xs)))"

definition page :: "int_builtin \<Rightarrow> 'a paginator \<Rightarrow> pyobj \<Rightarrow> exn + ('a, 'a) page" where
  "page str_int p n =
     (case validate_number str_int p n of
        Inl e \<Rightarrow> Inl e
      | Inr k \<Rightarrow>
          (let bottom = (k - 1) * per_page p;
               top = bottom + per_page p;
               top = (if top + orphans p \<ge> count p then count p else top)
           in case getitem_slice (paginator_object_list p) bottom top of
                Inl e \<Rightarrow> Inl e
              | Inr objs \<Rightarrow> Inr \<lparr>object_list = objs, number = k, paginator = p\<rparr>))"

definition get_page :: "int_builtin \<Rightarrow> 'a paginator \<Rightarrow> pyobj \<Rightarrow> exn + ('a, 'a) page" where
  "get_page str_int p n =
     (case validate_number str_int p n of
        Inr k \<Rightarrow> page str_int p (PyInt k)
      | Inl PageNotAnInteger \<Rightarrow> page str_int p (PyInt 1)
      | Inl EmptyPage \<Rightarrow>
          (case num_pages p of Inl e \<Rightarrow> Inl e | Inr np \<Rightarrow> page str_int p (PyInt np))
      | Inl e \<Rightarrow> Inl e)"

section \<open>Requests and responses\<close>

text \<open>
  A request carries its method, its user, the query string and the submitted form. The
  methods are the two of the specification's interface, GET and POST.
\<close>

datatype http_method = GET | POST

type_synonym querydict = "(string \<times> string) list"

text \<open>\<^verbatim>\<open>QueryDict.get\<close>: the last value given for the key, or \<^verbatim>\<open>None\<close>.\<close>

definition querydict_get :: "querydict \<Rightarrow> string \<Rightarrow> pyobj" where
  "querydict_get q k = (case map_of (rev q) k of None \<Rightarrow> PyNone | Some v \<Rightarrow> PyStr v)"

text \<open>
  \<^verbatim>\<open>request.user\<close> is the anonymous user or a row of the user table. Only a row of
  the user table is authenticated, equals a resource's author, or can be a superuser.
\<close>

datatype request_user = AnonymousUser | User user

record request =
  request_method :: http_method
  request_user :: request_user
  request_GET :: querydict
  request_body :: querydict

text \<open>\<^verbatim>\<open>request.POST\<close> holds the submitted form of a POST request and is empty otherwise.\<close>

definition request_POST :: "request \<Rightarrow> querydict" where
  "request_POST r = (if request_method r = POST then request_body r else [])"

fun is_authenticated :: "request_user \<Rightarrow> bool" where
  "is_authenticated AnonymousUser = False"
| "is_authenticated (User u) = True"

fun user_is_superuser :: "request_user \<Rightarrow> bool" where
  "user_is_superuser AnonymousUser = False"
| "user_is_superuser (User u) = is_superuser u"

text \<open>\<^verbatim>\<open>obj.author == request.user\<close>, the author given by its key.\<close>

fun author_eq :: "nat \<Rightarrow> request_user \<Rightarrow> bool" where
  "author_eq a AnonymousUser = False"
| "author_eq a (User u) = (a = user_id u)"

text \<open>The named routes the views redirect to, and the login page of the framework.\<close>

datatype url = blog_index | blog_post_detail nat | blog_profile string | login_url

section \<open>Forms\<close>

text \<open>
  \<^verbatim>\<open>blog/forms.py\<close> is not among the sources, so the views take the form class as a
  parameter: the function that cleans the submitted data against an instance and
  either names the fields in error or returns the instance with the cleaned fields
  set. The primary key is no form field.
\<close>

datatype 'a cleaned = Invalid "string list" | Valid 'a

type_synonym 'a form_class = "database \<Rightarrow> querydict \<Rightarrow> 'a \<Rightarrow> 'a cleaned"

datatype 'a form =
  Unbound 'a
  | BoundInvalid querydict 'a "string list"
  | BoundValid querydict 'a

definition make_form :: "'a form_class \<Rightarrow> database \<Rightarrow> querydict option \<Rightarrow> 'a \<Rightarrow> 'a form" where
  "make_form form_class db data inst =
     (case data of
        None \<Rightarrow> Unbound inst
      | Some d \<Rightarrow>
          (case form_class db d inst of
             Invalid errs \<Rightarrow> BoundInvalid d inst errs
           | Valid inst' \<Rightarrow> BoundValid d inst'))"

fun is_valid :: "'a form \<Rightarrow> bool" where
  "is_valid (BoundValid d inst) = True"
| "is_valid (BoundInvalid d inst errs) = False"
| "is_valid (Unbound inst) = False"

fun form_instance :: "'a form \<Rightarrow> 'a" where
  "form_instance (BoundValid d inst) = inst"
| "form_instance (BoundInvalid d inst errs) = inst"
| "form_instance (Unbound inst) = inst"

fun form_errors :: "'a form \<Rightarrow> string list" where
  "form_errors (BoundInvalid d inst errs) = errs"
| "form_errors (BoundValid d inst) = []"
| "form_errors (Unbound inst) = []"

text \<open>
  Modelled from the spec: the class \<^verbatim>\<open>CommentForm\<close> of the absent
  \<^verbatim>\<open>blog/forms.py\<close>. A comment has a text body, and the form validates its
  presence: the field \<^verbatim>\<open>text\<close> is required.
\<close>

definition CommentForm :: "comment form_class" where
  "CommentForm db data inst =
     (case map_of (rev data) ''text'' of
        None \<Rightarrow> Invalid [''text'']
      | Some t \<Rightarrow> if t = [] then Invalid [''text''] else Valid (inst\<lparr>comment_text := t\<rparr>))"

text \<open>Instances that a model class makes before any field is assigned.\<close>

definition new_comment :: comment where
  "new_comment =
     \<lparr>comment_id = 0, comment_text = [], comment_post = 0, comment_author = 0,
      comment_created_at = 0\<rparr>"

definition new_post :: post where
  "new_post =
     \<lparr>post_id = 0, title = [], post_text = [], pub_date = 0, is_published = True,
      post_category = 0, location = None, post_author = 0, post_created_at = 0\<rparr>"

text \<open>
  Assigning \<^verbatim>\<open>request.user\<close> to the foreign key \<^verbatim>\<open>author\<close>: the descriptor of the
  framework accepts a row of the user table and refuses the anonymous user with
  \<^verbatim>\<open>ValueError\<close>.
\<close>

fun set_comment_author :: "comment \<Rightarrow> request_user \<Rightarrow> exn + comment" where
  "set_comment_author c AnonymousUser = Inl ValueError"
| "set_comment_author c (User u) = Inr (c\<lparr>comment_author := user_id u\<rparr>)"

fun set_post_author :: "post \<Rightarrow> request_user \<Rightarrow> exn + post" where
  "set_post_author p AnonymousUser = Inl ValueError"
| "set_post_author p (User u) = Inr (p\<lparr>post_author := user_id u\<rparr>)"

section \<open>Saving and deleting rows\<close>

text \<open>
  \<^verbatim>\<open>save()\<close> of a new instance inserts a row under the next primary key, stamped with
  the time of creation; of a fetched instance it rewrites the row of its key.
  \<^verbatim>\<open>delete()\<close> removes the row, and for a post the comments that refer to it.
\<close>

definition insert_comment :: "timestamp \<Rightarrow> database \<Rightarrow> comment \<Rightarrow> database" where
  "insert_comment now db c =
     db\<lparr>comments := comments db @ [c\<lparr>comment_id := next_comment_id db, comment_created_at := now\<rparr>],
        next_comment_id := Suc (next_comment_id db)\<rparr>"

definition insert_post :: "timestamp \<Rightarrow> database \<Rightarrow> post \<Rightarrow> database" where
  "insert_post now db p =
     db\<lparr>posts := posts db @ [p\<lparr>post_id := next_post_id db, post_created_at := now\<rparr>],
        next_post_id := Suc (next_post_id db)\<rparr>"

definition update_comment :: "database \<Rightarrow> nat \<Rightarrow> comment \<Rightarrow> database" where
  "update_comment db pk c =
     db\<lparr>comments := map (\<lambda>row. if comment_id row = pk then c\<lparr>comment_id := pk\<rparr> else row)
                        (comments db)\<rparr>"

definition update_post :: "database \<Rightarrow> nat \<Rightarrow> post \<Rightarrow> database" where
  "update_post db pk p =
     db\<lparr>posts := map (\<lambda>row. if post_id row = pk then p\<lparr>post_id := pk\<rparr> else row) (posts db)\<rparr>"

definition delete_comment_row :: "database \<Rightarrow> comment \<Rightarrow> database" where
  "delete_comment_row db c =
     db\<lparr>comments := filter (\<lambda>row. comment_id row \<noteq> comment_id c) (comments db)\<rparr>"

definition delete_post_row :: "database \<Rightarrow> post \<Rightarrow> database" where
  "delete_post_row db p =
     db\<lparr>posts := filter (\<lambda>row. post_id row \<noteq> post_id p) (posts db),
        comments := filter (\<lambda>row. comment_post row \<noteq> post_id p) (comments db)\<rparr>"

section \<open>\<^verbatim>\<open>blog/views.py\<close>\<close>

text \<open>
  A view maps the store and the request to the store it leaves behind and either the
  response or the exception it raises. The time of the call is a parameter where the
  view reads the clock, and the builtin \<^verbatim>\<open>int\<close> where the view paginates.
\<close>

datatype template_context =
  index_context "(annotated_post, post) page"
  | detail_context post "comment list" "comment form"
  | comment_context "comment form option" comment
  | create_context "post form"

datatype response = Redirect url | Render string template_context

type_synonym result = "(exn + response) \<times> database"

text \<open>
  Modelled from the spec: the constant of the absent \<^verbatim>\<open>blog/constants.py\<close>; the
  specification fixes the page size at 10 items.
\<close>

definition POSTS_PER_PAGE :: int where
  "POSTS_PER_PAGE = 10"

definition get_post_or_404 :: "database \<Rightarrow> nat \<Rightarrow> exn + post" where
  "get_post_or_404 db pid =
     (case find (\<lambda>p. post_id p = pid) (get_queryset db) of
        None \<Rightarrow> Inl Http404
      | Some p \<Rightarrow> Inr p)"

text \<open>\<^verbatim>\<open>get_object_or_404(Comment, id=comment_id)\<close>.\<close>

definition get_comment_or_404 :: "database \<Rightarrow> nat \<Rightarrow> exn + comment" where
  "get_comment_or_404 db cid =
     (case find (\<lambda>c. comment_id c = cid) (comments db) of
        None \<Rightarrow> Inl Http404
      | Some c \<Rightarrow> Inr c)"

definition paginate_queryset :: "int_builtin \<Rightarrow> 'a list \<Rightarrow> request \<Rightarrow> exn + ('a, 'a) page" where
  "paginate_queryset str_int queryset request =
     (let paginator = Paginator queryset POSTS_PER_PAGE;
          page_number = querydict_get (request_GET request) ''page''
      in get_page str_int paginator page_number)"

text \<open>\<^verbatim>\<open>post.comments\<close>: the comments whose foreign key is the post.\<close>

definition post_comments :: "database \<Rightarrow> post \<Rightarrow> comment list" where
  "post_comments db p = filter (\<lambda>c. comment_post c = post_id p) (comments db)"

subsection \<open>OnlyAuthorMixin\<close>

text \<open>
  \<^verbatim>\<open>get_object\<close> of the two views that use the mixin looks the post up by the
  \<^verbatim>\<open>post_id\<close> of the route.
\<close>

definition get_object :: "database \<Rightarrow> nat \<Rightarrow> exn + post" where
  "get_object db pid =
     (case find (\<lambda>p. post_id p = pid) (get_queryset db) of
        None \<Rightarrow> Inl Http404
      | Some p \<Rightarrow> Inr p)"

definition test_func :: "database \<Rightarrow> request \<Rightarrow> nat \<Rightarrow> exn + bool" where
  "test_func db request pid =
     (case get_object db pid of
        Inl e \<Rightarrow> Inl e
      | Inr obj \<Rightarrow>
          Inr (author_eq (post_author obj) (request_user request)
               \<or> user_is_superuser (request_user request)))"

definition handle_no_permission :: "database \<Rightarrow> request \<Rightarrow> nat \<Rightarrow> result" where
  "handle_no_permission db request pid =
     (case get_object db pid of
        Inl e \<Rightarrow> (Inl e, db)
      | Inr obj \<Rightarrow> (Inr (Redirect (blog_post_detail (post_id obj))), db))"

subsection \<open>The access control of the framework\<close>

text \<open>
  \<^verbatim>\<open>login_required\<close> sends a user who is not authenticated to the login page and
  calls the view otherwise. \<^verbatim>\<open>AccessMixin.handle_no_permission\<close> raises for an
  authenticated user and redirects the others to the login page.
  \<^verbatim>\<open>LoginRequiredMixin.dispatch\<close> and \<^verbatim>\<open>UserPassesTestMixin.dispatch\<close> call the
  \<^verbatim>\<open>handle_no_permission\<close> of the view, the first one in its method resolution
  order, when the user is not authenticated or fails the test.
\<close>

definition login_required :: "(database \<Rightarrow> request \<Rightarrow> result) \<Rightarrow> database \<Rightarrow> request \<Rightarrow> result" where
  "login_required view db request =
     (if is_authenticated (request_user request) then view db request
      else (Inr (Redirect login_url), db))"

definition AccessMixin_handle_no_permission :: "database \<Rightarrow> request \<Rightarrow> result" where
  "AccessMixin_handle_no_permission db request =
     (if is_authenticated (request_user request) then (Inl PermissionDenied, db)
      else (Inr (Redirect login_url), db))"

definition LoginRequiredMixin_dispatch :: "result \<Rightarrow> result \<Rightarrow> request \<Rightarrow> result" where
  "LoginRequiredMixin_dispatch no_permission super_dispatch request =
     (if \<not> is_authenticated (request_user request) then no_permission else super_dispatch)"

definition UserPassesTestMixin_dispatch :: "exn + bool \<Rightarrow> result \<Rightarrow> result \<Rightarrow> database \<Rightarrow> result" where
  "UserPassesTestMixin_dispatch user_test_result no_permission super_dispatch db =
     (case user_test_result of
        Inl e \<Rightarrow> (Inl e, db)
      | Inr ok \<Rightarrow> if \<not> ok then no_permission else super_dispatch)"

subsection \<open>Function views\<close>

definition index :: "int_builtin \<Rightarrow> timestamp \<Rightarrow> database \<Rightarrow> request \<Rightarrow> result" where
  "index str_int now db request =
     (let post_list = objects_available db now in
      case paginate_queryset str_int post_list request of
        Inl e \<Rightarrow> (Inl e, db)
      | Inr page_obj \<Rightarrow>
          (let annotated = map (\<lambda>post. (post, length (post_comments db post)))
                             (object_list page_obj)
           in (Inr (Render ''blog/index.html''
                      (index_context \<lparr>object_list = annotated, number = number page_obj,
                                      paginator = paginator page_obj\<rparr>)), db)))"

definition post_detail :: "comment form_class \<Rightarrow> timestamp \<Rightarrow> database \<Rightarrow> request \<Rightarrow> nat \<Rightarrow> result" where
  "post_detail form_class now db request pid =
     (case get_post_or_404 db pid of
        Inl e \<Rightarrow> (Inl e, db)
      | Inr post \<Rightarrow>
          if \<not> is_published post \<and> \<not> author_eq (post_author post) (request_user request)
          then (Inl Http404, db)
          else
            (let comments = post_comments db post;
                 form = make_form form_class db None new_comment;
                 render_detail = (\<lambda>form. (Inr (Render ''blog/detail.html''
                                        (detail_context post comments form)), db))
             in if request_method request = POST then
                  (let form = make_form form_class db (Some (request_POST request)) new_comment
                   in if is_valid form then
                        (case set_comment_author (form_instance form) (request_user request) of
                           Inl e \<Rightarrow> (Inl e, db)
                         | Inr comment \<Rightarrow>
                             (Inr (Redirect (blog_post_detail (post_id post))),
                              insert_comment now db (comment\<lparr>comment_post := post_id post\<rparr>)))
                      else render_detail form)
                else render_detail form))"

definition add_comment :: "comment form_class \<Rightarrow> timestamp \<Rightarrow> database \<Rightarrow> request \<Rightarrow> nat \<Rightarrow> result" where
  "add_comment form_class now db request pid =
     login_required (\<lambda>db request.
       case get_post_or_404 db pid of
         Inl e \<Rightarrow> (Inl e, db)
       | Inr post \<Rightarrow>
           (let form = make_form form_class db (Some (request_POST request)) new_comment
            in if is_valid form then
                 (case set_comment_author (form_instance form) (request_user request) of
                    Inl e \<Rightarrow> (Inl e, db)
                  | Inr comment \<Rightarrow>
                      (Inr (Redirect (blog_post_detail pid)),
                       insert_comment now db (comment\<lparr>comment_post := post_id post\<rparr>)))
               else (Inr (Redirect (blog_post_detail pid)), db))) db request"

text \<open>\<^verbatim>\<open>request.POST or None\<close>: an empty submission leaves the form unbound.\<close>

definition edit_comment :: "comment form_class \<Rightarrow> database \<Rightarrow> request \<Rightarrow> nat \<Rightarrow> nat \<Rightarrow> result" where
  "edit_comment form_class db request pid cid =
     login_required (\<lambda>db request.
       case get_comment_or_404 db cid of
         Inl e \<Rightarrow> (Inl e, db)
       | Inr comment \<Rightarrow>
           if \<not> author_eq (comment_author comment) (request_user request)
           then (Inr (Redirect (blog_post_detail pid)), db)
           else
             (let data = (if request_POST request = [] then None
                          else Some (request_POST request));
                  form = make_form form_class db data comment
              in if is_valid form then
                   (Inr (Redirect (blog_post_detail pid)),
                    update_comment db (comment_id comment) (form_instance form))
                 else (Inr (Render ''blog/comment.html''
                              (comment_context (Some form) comment)), db))) db request"

definition delete_comment :: "database \<Rightarrow> request \<Rightarrow> nat \<Rightarrow> nat \<Rightarrow> result" where
  "delete_comment db request pid cid =
     login_required (\<lambda>db request.
       case get_comment_or_404 db cid of
         Inl e \<Rightarrow> (Inl e, db)
       | Inr comment \<Rightarrow>
           if \<not> author_eq (comment_author comment) (request_user request)
           then (Inr (Redirect (blog_post_detail pid)), db)
           else if request_method request = POST then
             (Inr (Redirect (blog_post_detail pid)), delete_comment_row db comment)
           else (Inr (Render ''blog/comment.html'' (comment_context None comment)), db))
       db request"

subsection \<open>Class-based views\<close>

text \<open>
  \<^verbatim>\<open>PostCreateView(LoginRequiredMixin, CreateView)\<close>: the view defines no
  \<^verbatim>\<open>handle_no_permission\<close>, so the one of \<^verbatim>\<open>AccessMixin\<close> is called. A GET shows the
  empty form; a POST binds the form and, when it is valid, \<^verbatim>\<open>form_valid\<close> stamps the
  author and saves the instance.
\<close>

definition PostCreateView_form_valid :: "timestamp \<Rightarrow> database \<Rightarrow> request \<Rightarrow> post form \<Rightarrow> result" where
  "PostCreateView_form_valid now db request form =
     (case set_post_author (form_instance form) (request_user request) of
        Inl e \<Rightarrow> (Inl e, db)
      | Inr inst \<Rightarrow>
          (Inr (Redirect (blog_profile
                  (case request_user request of AnonymousUser \<Rightarrow> [] | User u \<Rightarrow> username u))),
           insert_post now db inst))"

definition PostCreateView :: "post form_class \<Rightarrow> timestamp \<Rightarrow> database \<Rightarrow> request \<Rightarrow> result" where
  "PostCreateView form_class now db request =
     LoginRequiredMixin_dispatch (AccessMixin_handle_no_permission db request)
       (if request_method request = POST then
          (let form = make_form form_class db (Some (request_POST request)) new_post
           in if is_valid form then PostCreateView_form_valid now db request form
              else (Inr (Render ''blog/create.html'' (create_context form)), db))
        else (Inr (Render ''blog/create.html''
                     (create_context (make_form form_class db None new_post))), db))
       request"

text \<open>
  \<^verbatim>\<open>PostEditView(LoginRequiredMixin, OnlyAuthorMixin, UpdateView)\<close> and
  \<^verbatim>\<open>PostDeleteView(LoginRequiredMixin, OnlyAuthorMixin, DeleteView)\<close>: in the method
  resolution order \<^verbatim>\<open>OnlyAuthorMixin\<close> comes before \<^verbatim>\<open>AccessMixin\<close>, so both
  dispatch steps call \<^verbatim>\<open>OnlyAuthorMixin.handle_no_permission\<close>.
\<close>

definition PostEditView :: "post form_class \<Rightarrow> database \<Rightarrow> request \<Rightarrow> nat \<Rightarrow> result" where
  "PostEditView form_class db request pid =
     LoginRequiredMixin_dispatch (handle_no_permission db request pid)
       (UserPassesTestMixin_dispatch (test_func db request pid)
          (handle_no_permission db request pid)
          (case get_object db pid of
             Inl e \<Rightarrow> (Inl e, db)
           | Inr obj \<Rightarrow>
               if request_method request = POST then
                 (let form = make_form form_class db (Some (request_POST request)) obj
                  in if is_valid form then
                       (Inr (Redirect (blog_post_detail (post_id obj))),
                        update_post db (post_id obj) (form_instance form))
                     else (Inr (Render ''blog/create.html'' (create_context form)), db))
               else (Inr (Render ''blog/create.html''
                            (create_context (make_form form_class db None obj))), db))
          db)
       request"

definition PostDeleteView :: "database \<Rightarrow> request \<Rightarrow> nat \<Rightarrow> result" where
  "PostDeleteView db request pid =
     LoginRequiredMixin_dispatch (handle_no_permission db request pid)
       (UserPassesTestMixin_dispatch (test_func db request pid)
          (handle_no_permission db request pid)
          (case get_object db pid of
             Inl e \<Rightarrow> (Inl e, db)
           | Inr obj \<Rightarrow>
               if request_method request = POST then
                 (Inr (Redirect blog_index), delete_post_row db obj)
               else (Inr (Render ''blog/create.html'' (create_context (Unbound obj))), db))
          db)
       request"

section \<open>A sample store\<close>

text \<open>
  Three users, of whom \<open>root\<close> is a superuser; a published and an unpublished
  category; a published post of \<open>alice\<close>, an unpublished post of \<open>alice\<close>, and a
  published post of \<open>bob\<close> in the unpublished category, dated after the time 1000 at
  which the examples run; two comments on the first post.
\<close>

definition alice :: user where
  "alice = \<lparr>user_id = 1, username = ''alice'', is_superuser = False\<rparr>"

definition bob :: user where
  "bob = \<lparr>user_id = 2, username = ''bob'', is_superuser = False\<rparr>"

definition root :: user where
  "root = \<lparr>user_id = 3, username = ''root'', is_superuser = True\<rparr>"

definition post1 :: post where
  "post1 = \<lparr>post_id = 1, title = ''Hello'', post_text = ''First'', pub_date = 100,
            is_published = True, post_category = 1, location = None, post_author = 1,
            post_created_at = 90\<rparr>"

definition post2 :: post where
  "post2 = \<lparr>post_id = 2, title = ''Draft'', post_text = ''Later'', pub_date = 100,
            is_published = False, post_category = 1, location = None, post_author = 1,
            post_created_at = 95\<rparr>"

definition post3 :: post where
  "post3 = \<lparr>post_id = 3, title = ''Soon'', post_text = ''Ahead'', pub_date = 5000,
            is_published = True, post_category = 2, location = None, post_author = 2,
            post_created_at = 99\<rparr>"

definition comment1 :: comment where
  "comment1 = \<lparr>comment_id = 1, comment_text = ''Nice'', comment_post = 1,
               comment_author = 2, comment_created_at = 110\<rparr>"

definition comment2 :: comment where
  "comment2 = \<lparr>comment_id = 2, comment_text = ''Thanks'', comment_post = 1,
               comment_author = 1, comment_created_at = 120\<rparr>"

definition sample_db :: database where
  "sample_db =
     \<lparr>posts = [post1, post2, post3],
      comments = [comment1, comment2],
      categories = [\<lparr>category_id = 1, slug = ''travel'', category_is_published = True\<rparr>,
                    \<lparr>category_id = 2, slug = ''hidden'', category_is_published = False\<rparr>],
      users = [alice, bob, root],
      next_post_id = 4,
      next_comment_id = 3\<rparr>"

definition get_request :: "request_user \<Rightarrow> querydict \<Rightarrow> request" where
  "get_request u q = \<lparr>request_method = GET, request_user = u, request_GET = q, request_body = []\<rparr>"

definition post_request :: "request_user \<Rightarrow> querydict \<Rightarrow> request" where
  "post_request u d = \<lparr>request_method = POST, request_user = u, request_GET = [], request_body = d\<rparr>"

text \<open>
  A reader of decimal numbers for the examples. It accepts the strings of one to 4300
  ASCII digits, on which the builtin \<^verbatim>\<open>int\<close> of every interpreter returns the
  same integer, and no other string. The examples submit only such strings and strings
  without a digit, which \<^verbatim>\<open>int\<close> refuses as well.
\<close>

definition is_digit :: "char \<Rightarrow> bool" where
  "is_digit c = (c \<in> set ''0123456789'')"

definition digit_value :: "char \<Rightarrow> int" where
  "digit_value c = int (of_char c) - 48"

definition read_decimal :: "string \<Rightarrow> int option" where
  "read_decimal s =
     (if s = [] \<or> 4300 < length s \<or> \<not> list_all is_digit s then None
      else Some (foldl (\<lambda>n c. 10 * n + digit_value c) 0 s))"

text \<open>
  Two form classes that expose the author to the client, the case the stamping of the
  author has to withstand: beside the title (the text, for a comment) they copy a
  submitted \<^verbatim>\<open>author\<close> key to the instance.
\<close>

definition submitted_author :: "querydict \<Rightarrow> nat \<Rightarrow> nat" where
  "submitted_author data a =
     (case map_of (rev data) ''author'' of
        None \<Rightarrow> a
      | Some v \<Rightarrow> (case read_decimal v of None \<Rightarrow> a | Some n \<Rightarrow> nat n))"

definition sample_post_form :: "post form_class" where
  "sample_post_form db data inst =
     (case map_of (rev data) ''title'' of
        None \<Rightarrow> Invalid [''title'']
      | Some t \<Rightarrow>
          if t = [] then Invalid [''title'']
          else Valid (inst\<lparr>title := t, post_author := submitted_author data (post_author inst)\<rparr>))"

definition sample_comment_form :: "comment form_class" where
  "sample_comment_form db data inst =
     (case map_of (rev data) ''text'' of
        None \<Rightarrow> Invalid [''text'']
      | Some t \<Rightarrow>
          if t = [] then Invalid [''text'']
          else Valid (inst\<lparr>comment_text := t,
                           comment_author := submitted_author data (comment_author inst)\<rparr>))"

section \<open>Auxiliary facts\<close>

lemma available_filter:
  "available db now qs =
     filter (\<lambda>p. (\<exists>c. find (\<lambda>c. category_id c = post_category p) (categories db) = Some c
                       \<and> category_is_published c)
                \<and> is_published p \<and> pub_date p \<le> now) qs"
proof -
  have "category_published db qs =
          filter (\<lambda>p. \<exists>c. find (\<lambda>c. category_id c = post_category p) (categories db) = Some c
                            \<and> category_is_published c) qs"
    unfolding category_published_def
    by (rule filter_cong) (auto split: option.splits)
  then show ?thesis
    unfolding available_def published_up_to_now_def published_def
    by (simp add: conj_commute conj_left_commute)
qed

lemma Paginator_sel:
  "paginator_object_list (Paginator qs n) = qs" "per_page (Paginator qs n) = n"
  "orphans (Paginator qs n) = 0" "allow_empty_first_page (Paginator qs n) = True"
  "count (Paginator qs n) = int (length qs)"
  by (simp_all add: Paginator_def count_def)

lemma num_pages_Paginator:
  "num_pages (Paginator qs POSTS_PER_PAGE) = Inr (- ((- max 1 (int (length qs))) div 10))"
  by (simp add: num_pages_def Paginator_sel POSTS_PER_PAGE_def)

lemma last_page_bounds:
  fixes n :: int
  assumes "np = - ((- max 1 n) div 10)"
  shows "1 \<le> np" and "(np - 1) * 10 < max 1 n" and "max 1 n \<le> np * 10"
  using assms by (auto simp: max_def) 

lemma validate_number_Paginator:
  "validate_number str_int (Paginator qs POSTS_PER_PAGE) raw =
     (case py_int str_int raw of
        Inl e \<Rightarrow> Inl PageNotAnInteger
      | Inr k \<Rightarrow> if k < 1 \<or> k > - ((- max 1 (int (length qs))) div 10) then Inl EmptyPage
                 else Inr k)"
proof (cases raw)
  case PyNone
  then show ?thesis by (simp add: validate_number_def)
next
  case (PyStr s)
  then show ?thesis
    by (cases "str_int s") (auto simp: validate_number_def num_pages_Paginator)
next
  case (PyInt k)
  then show ?thesis by (auto simp: validate_number_def num_pages_Paginator)
qed

lemma page_Paginator:
  assumes "1 \<le> k" and "k \<le> - ((- max 1 (int (length qs))) div 10)"
  shows "page str_int (Paginator qs POSTS_PER_PAGE) (PyInt k) =
           Inr \<lparr>object_list = take 10 (drop (nat ((k - 1) * 10)) qs), number = k,
                paginator = Paginator qs POSTS_PER_PAGE\<rparr>"
proof -
  have v: "validate_number str_int (Paginator qs POSTS_PER_PAGE) (PyInt k) = Inr k"
    using assms by (simp add: validate_number_Paginator)
  have b: "0 \<le> (k - 1) * 10" using assms(1) by simp
  show ?thesis
  proof (cases "(k - 1) * 10 + 10 \<ge> int (length qs)")
    case True
    then have "length (drop (nat ((k - 1) * 10)) qs) \<le> 10" using b by simp
    moreover have "nat (int (length qs) - (k - 1) * 10) \<ge> length (drop (nat ((k - 1) * 10)) qs)"
      using b by simp
    ultimately have "take (nat (int (length qs) - (k - 1) * 10)) (drop (nat ((k - 1) * 10)) qs)
                      = take 10 (drop (nat ((k - 1) * 10)) qs)"
      by simp
    with True b show ?thesis
      by (simp add: page_def v getitem_slice_def Paginator_sel Let_def)
        (simp add: POSTS_PER_PAGE_def)
  next
    case False
    with b show ?thesis
      by (simp add: page_def v getitem_slice_def Paginator_sel Let_def)
        (simp add: POSTS_PER_PAGE_def)
  qed
qed


lemma get_page_Paginator:
  fixes qs :: "'a list"
  defines "np \<equiv> - ((- max 1 (int (length qs))) div 10)"
  shows "get_page str_int (Paginator qs POSTS_PER_PAGE) raw =
           (let k = (case py_int str_int raw of
                       Inl e \<Rightarrow> 1
                     | Inr k \<Rightarrow> if k < 1 \<or> k > np then np else k)
            in Inr \<lparr>object_list = take 10 (drop (nat ((k - 1) * 10)) qs), number = k,
                    paginator = Paginator qs POSTS_PER_PAGE\<rparr>)"
proof -
  have np1: "1 \<le> np" using last_page_bounds(1) [of np "int (length qs)"] by (simp add: np_def)
  show ?thesis
  proof (cases "py_int str_int raw")
    case (Inl e)
    then show ?thesis
      using np1 page_Paginator [of 1 qs str_int]
      by (simp add: get_page_def validate_number_Paginator np_def)
  next
    case (Inr k)
    show ?thesis
    proof (cases "k < 1 \<or> k > np")
      case True
      then show ?thesis
        using Inr np1 page_Paginator [of np qs str_int]
        by (simp add: get_page_def validate_number_Paginator num_pages_Paginator np_def)
    next
      case False
      then show ?thesis
        using Inr page_Paginator [of k qs str_int]
        by (simp add: get_page_def validate_number_Paginator np_def)
    qed
  qed
qed

lemma find_SomeD: "find P xs = Some x \<Longrightarrow> P x \<and> x \<in> set xs"
  by (auto simp: find_Some_iff)

lemma get_post_or_404_Inr:
  "get_post_or_404 db pid = Inr p \<Longrightarrow> post_id p = pid \<and> p \<in> set (posts db)"
  by (auto simp: get_post_or_404_def get_queryset_def split: option.splits dest: find_SomeD)

lemma get_object_Inr:
  "get_object db pid = Inr p \<Longrightarrow> post_id p = pid \<and> p \<in> set (posts db)"
  by (auto simp: get_object_def get_queryset_def split: option.splits dest: find_SomeD)

lemma get_comment_or_404_Inr:
  "get_comment_or_404 db cid = Inr c \<Longrightarrow> comment_id c = cid \<and> c \<in> set (comments db)"
  by (auto simp: get_comment_or_404_def split: option.splits dest: find_SomeD)

lemma Count_left_join:
  "Count (left_join_comments db p) = length (filter (\<lambda>c. comment_post c = post_id p) (comments db))"
proof (cases "filter (\<lambda>c. comment_post c = post_id p) (comments db)")
  case Nil
  then show ?thesis by (simp add: Count_def left_join_comments_def)
next
  case (Cons c cs)
  have "filter (\<lambda>row. snd row \<noteq> None) (map (\<lambda>c'. (p, Some c')) (c # cs))
          = map (\<lambda>c'. (p, Some c')) (c # cs)"
    by (simp add: filter_map o_def)
  with Cons show ?thesis by (simp add: Count_def left_join_comments_def del: filter.simps)
qed

section \<open>The availability filter\<close>

text \<open>
  C1. A post is in the result of \<^verbatim>\<open>available()\<close> exactly when it is a row of the
  queryset the method is called on (for \<^verbatim>\<open>Post.objects.available()\<close>: of the post
  table), its \<^verbatim>\<open>is_published\<close> is true, its foreign key finds a category whose
  \<^verbatim>\<open>is_published\<close> is true, and its \<^verbatim>\<open>pub_date\<close> is not after the current time.
\<close>

theorem available_iff:
  "(p \<in> set (available db now qs) \<longleftrightarrow>
      p \<in> set qs \<and> is_published p
      \<and> (\<exists>c. find (\<lambda>c. category_id c = post_category p) (categories db) = Some c
               \<and> category_is_published c)
      \<and> pub_date p \<le> now)
   \<and> (p \<in> set (objects_available db now) \<longleftrightarrow>
      p \<in> set (posts db) \<and> is_published p
      \<and> (\<exists>c. find (\<lambda>c. category_id c = post_category p) (categories db) = Some c
               \<and> category_is_published c)
      \<and> pub_date p \<le> now)"
  by (auto simp: available_filter objects_available_def get_queryset_def)

section \<open>The comment count\<close>

text \<open>
  C8. The number of comment records that refer to a post is the number of rows of the
  comment table whose foreign key is the post's key. \<^verbatim>\<open>with_comment_count()\<close> keeps
  the posts of the queryset and attaches exactly that number to each of them. The view
  \<^verbatim>\<open>index\<close> always renders a page of the available posts, and the
  \<^verbatim>\<open>comment_count\<close> it sets on each post of the page is that number too.
\<close>

theorem comment_count_exact:
  "map fst (with_comment_count db qs) = qs
   \<and> map snd (with_comment_count db qs) =
       map (\<lambda>p. card {i. i < length (comments db) \<and> comment_post (comments db ! i) = post_id p}) qs
   \<and> (\<exists>pg. index str_int now db request = (Inr (Render ''blog/index.html'' (index_context pg)), db)
          \<and> paginate_queryset str_int (objects_available db now) request =
                Inr \<lparr>object_list = map fst (object_list pg), number = number pg,
                     paginator = paginator pg\<rparr>
          \<and> map snd (object_list pg) =
                map (\<lambda>p. card {i. i < length (comments db)
                                   \<and> comment_post (comments db ! i) = post_id p})
                    (map fst (object_list pg)))"
proof (intro conjI)
  show "map fst (with_comment_count db qs) = qs"
    by (simp add: with_comment_count_def o_def)
  show "map snd (with_comment_count db qs) =
       map (\<lambda>p. card {i. i < length (comments db) \<and> comment_post (comments db ! i) = post_id p}) qs"
    by (simp add: with_comment_count_def o_def Count_left_join length_filter_conv_card)
  obtain pg0 where pg0: "paginate_queryset str_int (objects_available db now) request = Inr pg0"
    by (simp add: paginate_queryset_def get_page_Paginator Let_def)
  let ?pg = "\<lparr>object_list = map (\<lambda>post. (post, length (post_comments db post))) (object_list pg0),
              number = number pg0, paginator = paginator pg0\<rparr>"
  have "index str_int now db request = (Inr (Render ''blog/index.html'' (index_context ?pg)), db)"
    by (simp add: index_def pg0 Let_def)
  moreover have "paginate_queryset str_int (objects_available db now) request =
                Inr \<lparr>object_list = map fst (object_list ?pg), number = number ?pg,
                     paginator = paginator ?pg\<rparr>"
    by (simp add: pg0 o_def)
  moreover have "map snd (object_list ?pg) =
                map (\<lambda>p. card {i. i < length (comments db)
                                   \<and> comment_post (comments db ! i) = post_id p})
                    (map fst (object_list ?pg))"
    by (simp add: o_def post_comments_def length_filter_conv_card)
  ultimately show "\<exists>pg. index str_int now db request = (Inr (Render ''blog/index.html'' (index_context pg)), db)
          \<and> paginate_queryset str_int (objects_available db now) request =
                Inr \<lparr>object_list = map fst (object_list pg), number = number pg,
                     paginator = paginator pg\<rparr>
          \<and> map snd (object_list pg) =
                map (\<lambda>p. card {i. i < length (comments db)
                                   \<and> comment_post (comments db ! i) = post_id p})
                    (map fst (object_list pg))"
    by blast
qed

lemmas sample_defs = sample_db_def post1_def post2_def post3_def comment1_def comment2_def
  alice_def bob_def root_def get_request_def post_request_def


section \<open>Pagination\<close>

text \<open>
  C5. For every collection, every request and whatever the builtin \<^verbatim>\<open>int\<close> reads
  from strings, \<^verbatim>\<open>paginate_queryset\<close> returns a page and raises nothing. The number
  of pages is the least number, and at least 1, of pages of 10 items that hold the
  collection. The page holds at most 10 items: the items of the collection from
  position \<open>10 * (number - 1)\<close> on, and its number lies between 1 and the number of
  pages. When the request has no \<^verbatim>\<open>page\<close> parameter, or one at which \<^verbatim>\<open>int\<close>
  raises \<^verbatim>\<open>ValueError\<close>, the page is page 1; when \<^verbatim>\<open>int\<close> reads an integer
  beyond the last page, the page is the last page, with the remaining items. An
  integer from 1 to the number of pages gives the page of that number, and an integer
  below 1 is out of range as well and gives the last page.
\<close>

theorem paginate_queryset_page:
  "\<exists>pg np. paginate_queryset str_int qs request = Inr pg
     \<and> num_pages (Paginator qs POSTS_PER_PAGE) = Inr np
     \<and> 1 \<le> np \<and> (np - 1) * 10 < max 1 (int (length qs)) \<and> int (length qs) \<le> np * 10
     \<and> length (object_list pg) \<le> 10
     \<and> object_list pg = take 10 (drop (nat ((number pg - 1) * 10)) qs)
     \<and> 1 \<le> number pg \<and> number pg \<le> np
     \<and> (querydict_get (request_GET request) ''page'' = PyNone \<longrightarrow> number pg = 1)
     \<and> (\<forall>s. querydict_get (request_GET request) ''page'' = PyStr s \<and> str_int s = None
            \<longrightarrow> number pg = 1)
     \<and> (\<forall>s k. querydict_get (request_GET request) ''page'' = PyStr s \<and> str_int s = Some k
              \<and> np < k
            \<longrightarrow> number pg = np \<and> object_list pg = drop (nat ((np - 1) * 10)) qs)
     \<and> (\<forall>s k. querydict_get (request_GET request) ''page'' = PyStr s \<and> str_int s = Some k
              \<and> 1 \<le> k \<and> k \<le> np
            \<longrightarrow> number pg = k)
     \<and> (\<forall>s k. querydict_get (request_GET request) ''page'' = PyStr s \<and> str_int s = Some k
              \<and> k < 1
            \<longrightarrow> number pg = np)"
proof -
  define raw where "raw = querydict_get (request_GET request) ''page''"
  define np where "np = - ((- max 1 (int (length qs))) div 10)"
  define k where "k = (case py_int str_int raw of Inl e \<Rightarrow> 1
                       | Inr k \<Rightarrow> if k < 1 \<or> k > np then np else k)"
  define pg where "pg = \<lparr>object_list = take 10 (drop (nat ((k - 1) * 10)) qs), number = k,
                          paginator = Paginator qs POSTS_PER_PAGE\<rparr>"
  have np1: "1 \<le> np" and npleast: "(np - 1) * 10 < max 1 (int (length qs))"
    and nplast: "max 1 (int (length qs)) \<le> np * 10"
    using last_page_bounds [of np "int (length qs)"] by (simp_all add: np_def)
  have holds: "int (length qs) \<le> np * 10" using nplast by simp
  have res: "paginate_queryset str_int qs request = Inr pg"
    unfolding paginate_queryset_def Let_def pg_def k_def np_def raw_def
    by (simp add: get_page_Paginator Let_def)
  have nump: "num_pages (Paginator qs POSTS_PER_PAGE) = Inr np"
    by (simp add: num_pages_Paginator np_def)
  have krange: "1 \<le> k \<and> k \<le> np"
    using np1 by (auto simp: k_def split: sum.splits)
  have absent: "raw = PyNone \<Longrightarrow> k = 1" by (simp add: k_def)
  have invalid: "raw = PyStr s \<Longrightarrow> str_int s = None \<Longrightarrow> k = 1" for s
    by (simp add: k_def)
  have beyond: "raw = PyStr s \<Longrightarrow> str_int s = Some j \<Longrightarrow> np < j \<Longrightarrow> k = np" for s j
    by (simp add: k_def)
  have within: "raw = PyStr s \<Longrightarrow> str_int s = Some j \<Longrightarrow> 1 \<le> j \<Longrightarrow> j \<le> np \<Longrightarrow> k = j"
    for s j
    by (simp add: k_def)
  have below: "raw = PyStr s \<Longrightarrow> str_int s = Some j \<Longrightarrow> j < 1 \<Longrightarrow> k = np" for s j
    by (simp add: k_def)
  have lastpage: "take 10 (drop (nat ((np - 1) * 10)) qs) = drop (nat ((np - 1) * 10)) qs"
    using np1 nplast by (intro take_all) simp
  show ?thesis
    apply (rule exI [of _ pg], rule exI [of _ np])
    using res nump np1 npleast holds krange absent invalid beyond within below lastpage
    by (auto simp: pg_def raw_def)
qed

theorem paginate_queryset_page_witness:
  "(\<exists>pg. paginate_queryset read_decimal [1, 2, 3, 4, 5, 6, 7, 8, 9, 10, 11, 12, 13 :: nat]
            (get_request AnonymousUser []) = Inr pg
         \<and> number pg = 1 \<and> length (object_list pg) \<le> 10)
   \<and> (\<exists>pg. paginate_queryset read_decimal [1, 2, 3, 4, 5, 6, 7, 8, 9, 10, 11, 12, 13 :: nat]
            (get_request AnonymousUser [(''page'', ''abc'')]) = Inr pg
         \<and> number pg = 1 \<and> length (object_list pg) \<le> 10)
   \<and> (\<exists>pg. paginate_queryset read_decimal [1, 2, 3, 4, 5, 6, 7, 8, 9, 10, 11, 12, 13 :: nat]
            (get_request AnonymousUser [(''page'', ''7'')]) = Inr pg
         \<and> number pg = 2 \<and> object_list pg = [11, 12, 13])
   \<and> (\<exists>pg. paginate_queryset read_decimal [1, 2, 3, 4, 5, 6, 7, 8, 9, 10, 11, 12, 13 :: nat]
            (get_request AnonymousUser [(''page'', ''2'')]) = Inr pg
         \<and> number pg = 2 \<and> object_list pg = [11, 12, 13])
   \<and> (\<exists>pg. paginate_queryset read_decimal [1, 2, 3, 4, 5, 6, 7, 8, 9, 10, 11, 12, 13 :: nat]
            (get_request AnonymousUser [(''page'', ''1'')]) = Inr pg
         \<and> number pg = 1 \<and> object_list pg = [1, 2, 3, 4, 5, 6, 7, 8, 9, 10])
   \<and> (\<exists>pg. paginate_queryset read_decimal [1, 2, 3, 4, 5, 6, 7, 8, 9, 10, 11, 12, 13 :: nat]
            (get_request AnonymousUser [(''page'', ''0'')]) = Inr pg
         \<and> number pg = 2)"
proof -
  let ?qs = "[1, 2, 3, 4, 5, 6, 7, 8, 9, 10, 11, 12, 13 :: nat]"
  have np: "num_pages (Paginator ?qs POSTS_PER_PAGE) = Inr 2"
    by (simp add: num_pages_def Paginator_def count_def POSTS_PER_PAGE_def)
  have absent: "querydict_get (request_GET (get_request AnonymousUser [])) ''page'' = PyNone"
    by (simp add: querydict_get_def get_request_def)
  have given: "querydict_get (request_GET (get_request AnonymousUser [(''page'', v)])) ''page''
                 = PyStr v" for v
    by (simp add: querydict_get_def get_request_def)
  have reads: "read_decimal ''abc'' = None" "read_decimal ''7'' = Some 7"
    "read_decimal ''2'' = Some 2" "read_decimal ''1'' = Some 1" "read_decimal ''0'' = Some 0"
    by (simp_all add: read_decimal_def is_digit_def digit_value_def)
  have pages: "\<exists>pg. paginate_queryset read_decimal ?qs r = Inr pg
      \<and> length (object_list pg) \<le> 10
      \<and> object_list pg = take 10 (drop (nat ((number pg - 1) * 10)) ?qs)
      \<and> (querydict_get (request_GET r) ''page'' = PyNone \<longrightarrow> number pg = 1)
      \<and> (\<forall>s. querydict_get (request_GET r) ''page'' = PyStr s \<and> read_decimal s = None
             \<longrightarrow> number pg = 1)
      \<and> (\<forall>s k. querydict_get (request_GET r) ''page'' = PyStr s \<and> read_decimal s = Some k
               \<and> 2 < k \<longrightarrow> number pg = 2)
      \<and> (\<forall>s k. querydict_get (request_GET r) ''page'' = PyStr s \<and> read_decimal s = Some k
               \<and> 1 \<le> k \<and> k \<le> 2 \<longrightarrow> number pg = k)
      \<and> (\<forall>s k. querydict_get (request_GET r) ''page'' = PyStr s \<and> read_decimal s = Some k
               \<and> k < 1 \<longrightarrow> number pg = 2)" for r
    using paginate_queryset_page [of read_decimal ?qs r] np by auto
  have first: "\<exists>pg. paginate_queryset read_decimal ?qs (get_request AnonymousUser []) = Inr pg
         \<and> number pg = 1 \<and> length (object_list pg) \<le> 10"
    using pages [of "get_request AnonymousUser []"] absent by auto
  have invalid: "\<exists>pg. paginate_queryset read_decimal ?qs
                         (get_request AnonymousUser [(''page'', ''abc'')]) = Inr pg
         \<and> number pg = 1 \<and> length (object_list pg) \<le> 10"
    using pages [of "get_request AnonymousUser [(''page'', ''abc'')]"] given reads(1) by auto
  have beyond: "\<exists>pg. paginate_queryset read_decimal ?qs
                         (get_request AnonymousUser [(''page'', ''7'')]) = Inr pg
         \<and> number pg = 2 \<and> object_list pg = [11, 12, 13]"
  proof -
    obtain pg where pg: "paginate_queryset read_decimal ?qs
                           (get_request AnonymousUser [(''page'', ''7'')]) = Inr pg"
      and objs: "object_list pg = take 10 (drop (nat ((number pg - 1) * 10)) ?qs)"
      and num: "number pg = 2"
      using pages [of "get_request AnonymousUser [(''page'', ''7'')]"] given reads(2) by auto
    from objs num have "object_list pg = [11, 12, 13]" by simp
    with pg num show ?thesis by blast
  qed
  have second: "\<exists>pg. paginate_queryset read_decimal ?qs
                         (get_request AnonymousUser [(''page'', ''2'')]) = Inr pg
         \<and> number pg = 2 \<and> object_list pg = [11, 12, 13]"
  proof -
    obtain pg where pg: "paginate_queryset read_decimal ?qs
                           (get_request AnonymousUser [(''page'', ''2'')]) = Inr pg"
      and objs: "object_list pg = take 10 (drop (nat ((number pg - 1) * 10)) ?qs)"
      and num: "number pg = 2"
      using pages [of "get_request AnonymousUser [(''page'', ''2'')]"] given reads(3) by auto
    from objs num have "object_list pg = [11, 12, 13]" by simp
    with pg num show ?thesis by blast
  qed
  have one: "\<exists>pg. paginate_queryset read_decimal ?qs
                         (get_request AnonymousUser [(''page'', ''1'')]) = Inr pg
         \<and> number pg = 1 \<and> object_list pg = [1, 2, 3, 4, 5, 6, 7, 8, 9, 10]"
  proof -
    obtain pg where pg: "paginate_queryset read_decimal ?qs
                           (get_request AnonymousUser [(''page'', ''1'')]) = Inr pg"
      and objs: "object_list pg = take 10 (drop (nat ((number pg - 1) * 10)) ?qs)"
      and num: "number pg = 1"
      using pages [of "get_request AnonymousUser [(''page'', ''1'')]"] given reads(4) by auto
    from objs num have "object_list pg = [1, 2, 3, 4, 5, 6, 7, 8, 9, 10]" by simp
    with pg num show ?thesis by blast
  qed
  have zero: "\<exists>pg. paginate_queryset read_decimal ?qs
                         (get_request AnonymousUser [(''page'', ''0'')]) = Inr pg
         \<and> number pg = 2"
    using pages [of "get_request AnonymousUser [(''page'', ''0'')]"] given reads(5) by auto
  from first invalid beyond second one zero show ?thesis by blast
qed

lemma post_detail_found:
  assumes "get_post_or_404 db pid = Inr p"
  shows "post_detail form_class now db request pid =
     (if \<not> is_published p \<and> \<not> author_eq (post_author p) (request_user request)
      then (Inl Http404, db)
      else if request_method request = POST then
        (case form_class db (request_POST request) new_comment of
           Invalid errs \<Rightarrow>
             (Inr (Render ''blog/detail.html''
                    (detail_context p (post_comments db p)
                       (BoundInvalid (request_POST request) new_comment errs))), db)
         | Valid c \<Rightarrow>
             (case request_user request of
                AnonymousUser \<Rightarrow> (Inl ValueError, db)
              | User u \<Rightarrow>
                  (Inr (Redirect (blog_post_detail pid)),
                   insert_comment now db (c\<lparr>comment_author := user_id u, comment_post := pid\<rparr>))))
      else (Inr (Render ''blog/detail.html''
                   (detail_context p (post_comments db p) (Unbound new_comment))), db))"
proof -
  have pid: "post_id p = pid" using assms by (simp add: get_post_or_404_Inr)
  show ?thesis
    by (cases "form_class db (request_POST request) new_comment"; cases "request_user request")
       (simp_all add: post_detail_def assms make_form_def Let_def pid)
qed

section \<open>The detail view\<close>

text \<open>
  C4. Let the post of the requested key be unpublished. Every viewer who is not its
  author, the anonymous viewer among them, gets \<^verbatim>\<open>Http404\<close> (and never
  \<^verbatim>\<open>PermissionDenied\<close>) for every request, and the store is left as it was. The
  author who fetches the page with GET gets the rendered detail page with the post, its
  comments and an empty comment form; no request of the author raises an exception.
\<close>

theorem unpublished_post_detail:
  assumes "get_post_or_404 db pid = Inr p" and "\<not> is_published p"
  shows "(\<not> author_eq (post_author p) (request_user request) \<longrightarrow>
            post_detail form_class now db request pid = (Inl Http404, db))
       \<and> (request_user request = AnonymousUser \<longrightarrow>
            post_detail form_class now db request pid = (Inl Http404, db))
       \<and> (author_eq (post_author p) (request_user request) \<and> request_method request = GET \<longrightarrow>
            post_detail form_class now db request pid =
              (Inr (Render ''blog/detail.html''
                     (detail_context p (post_comments db p) (Unbound new_comment))), db))
       \<and> (author_eq (post_author p) (request_user request) \<longrightarrow>
            (\<exists>resp db'. post_detail form_class now db request pid = (Inr resp, db')))"
proof (intro conjI impI)
  assume "\<not> author_eq (post_author p) (request_user request)"
  then show "post_detail form_class now db request pid = (Inl Http404, db)"
    using assms by (simp add: post_detail_found)
next
  assume "request_user request = AnonymousUser"
  then show "post_detail form_class now db request pid = (Inl Http404, db)"
    using assms by (simp add: post_detail_found)
next
  assume "author_eq (post_author p) (request_user request) \<and> request_method request = GET"
  then show "post_detail form_class now db request pid =
              (Inr (Render ''blog/detail.html''
                     (detail_context p (post_comments db p) (Unbound new_comment))), db)"
    using assms by (simp add: post_detail_found)
next
  assume a: "author_eq (post_author p) (request_user request)"
  then obtain u where u: "request_user request = User u"
    by (cases "request_user request") simp_all
  show "\<exists>resp db'. post_detail form_class now db request pid = (Inr resp, db')"
    using assms a u
    by (cases "form_class db (request_POST request) new_comment")
       (simp_all add: post_detail_found)
qed

theorem unpublished_post_detail_witness:
  "get_post_or_404 sample_db 2 = Inr post2 \<and> \<not> is_published post2
   \<and> post_detail CommentForm 1000 sample_db (get_request AnonymousUser []) 2 = (Inl Http404, sample_db)
   \<and> post_detail CommentForm 1000 sample_db (get_request (User bob) []) 2 = (Inl Http404, sample_db)
   \<and> post_detail CommentForm 1000 sample_db (get_request (User alice) []) 2 =
        (Inr (Render ''blog/detail.html'' (detail_context post2 [] (Unbound new_comment))), sample_db)"
proof -
  have found: "get_post_or_404 sample_db 2 = Inr post2"
    by (simp add: get_post_or_404_def get_queryset_def sample_defs)
  have unpub: "\<not> is_published post2" by (simp add: post2_def)
  have anon: "request_user (get_request AnonymousUser []) = AnonymousUser"
    by (simp add: get_request_def)
  have other: "\<not> author_eq (post_author post2) (request_user (get_request (User bob) []))"
    by (simp add: sample_defs)
  have author: "author_eq (post_author post2) (request_user (get_request (User alice) []))
                 \<and> request_method (get_request (User alice) []) = GET"
    by (simp add: sample_defs)
  have none: "post_comments sample_db post2 = []"
    by (simp add: post_comments_def sample_defs)
  show ?thesis
    using unpublished_post_detail [OF found unpub, of "get_request AnonymousUser []" CommentForm 1000]
      unpublished_post_detail [OF found unpub, of "get_request (User bob) []" CommentForm 1000]
      unpublished_post_detail [OF found unpub, of "get_request (User alice) []" CommentForm 1000]
      found unpub anon other author none
    by simp
qed

text \<open>
  C10. Let the post of the requested key be published. A GET of the detail page by any
  viewer, the anonymous one included, is answered with the rendered page of the post,
  whatever its category and its publish time are. The view raises \<^verbatim>\<open>Http404\<close> for a
  post it found exactly when the post is unpublished and the viewer is not its author.
  A post that the availability filter selects is published, so its page is shown too;
  the sample store has a post that the filter rejects and whose page is shown to the
  anonymous viewer.
\<close>

theorem published_post_detail:
  assumes "get_post_or_404 db pid = Inr p"
  shows "(is_published p \<and> request_method request = GET \<longrightarrow>
            post_detail form_class now db request pid =
              (Inr (Render ''blog/detail.html''
                     (detail_context p (post_comments db p) (Unbound new_comment))), db))
       \<and> (fst (post_detail form_class now db request pid) = Inl Http404 \<longleftrightarrow>
            \<not> is_published p \<and> \<not> author_eq (post_author p) (request_user request))
       \<and> (p \<in> set (objects_available db now) \<longrightarrow> is_published p)
       \<and> (post3 \<notin> set (objects_available sample_db 1000)
          \<and> post_detail form_class 1000 sample_db (get_request AnonymousUser []) 3 =
              (Inr (Render ''blog/detail.html''
                     (detail_context post3 (post_comments sample_db post3) (Unbound new_comment))),
               sample_db))"
proof (intro conjI)
  show "is_published p \<and> request_method request = GET \<longrightarrow>
            post_detail form_class now db request pid =
              (Inr (Render ''blog/detail.html''
                     (detail_context p (post_comments db p) (Unbound new_comment))), db)"
    using assms by (simp add: post_detail_found)
  show "fst (post_detail form_class now db request pid) = Inl Http404 \<longleftrightarrow>
            \<not> is_published p \<and> \<not> author_eq (post_author p) (request_user request)"
    using assms
    by (cases "form_class db (request_POST request) new_comment"; cases "request_user request")
       (simp_all add: post_detail_found)
  show "p \<in> set (objects_available db now) \<longrightarrow> is_published p"
    by (simp add: objects_available_def available_filter)
  show "post3 \<notin> set (objects_available sample_db 1000)"
    by (simp add: objects_available_def available_filter get_queryset_def sample_defs)
  have "get_post_or_404 sample_db 3 = Inr post3"
    by (simp add: get_post_or_404_def get_queryset_def sample_defs)
  then show "post_detail form_class 1000 sample_db (get_request AnonymousUser []) 3 =
              (Inr (Render ''blog/detail.html''
                     (detail_context post3 (post_comments sample_db post3) (Unbound new_comment))),
               sample_db)"
    by (simp add: post_detail_found) (simp add: post3_def get_request_def)
qed

theorem published_post_detail_witness:
  "get_post_or_404 sample_db 3 = Inr post3 \<and> is_published post3
   \<and> pub_date post3 > 1000
   \<and> find (\<lambda>c. category_id c = post_category post3) (categories sample_db)
       = Some \<lparr>category_id = 2, slug = ''hidden'', category_is_published = False\<rparr>
   \<and> post_detail CommentForm 1000 sample_db (get_request AnonymousUser []) 3 =
        (Inr (Render ''blog/detail.html'' (detail_context post3 [] (Unbound new_comment))),
         sample_db)
   \<and> fst (post_detail CommentForm 1000 sample_db (get_request (User alice) []) 3) \<noteq> Inl Http404"
proof -
  have found: "get_post_or_404 sample_db 3 = Inr post3"
    by (simp add: get_post_or_404_def get_queryset_def sample_defs)
  have pub: "is_published post3 \<and> request_method (get_request AnonymousUser []) = GET"
    by (simp add: sample_defs)
  have none: "post_comments sample_db post3 = []"
    by (simp add: post_comments_def sample_defs)
  have facts: "pub_date post3 > 1000
     \<and> find (\<lambda>c. category_id c = post_category post3) (categories sample_db)
       = Some \<lparr>category_id = 2, slug = ''hidden'', category_is_published = False\<rparr>"
    by (simp add: sample_defs)
  show ?thesis
    using published_post_detail [OF found, of "get_request AnonymousUser []" CommentForm 1000]
      published_post_detail [OF found, of "get_request (User alice) []" CommentForm 1000]
      found pub none facts
    by simp
qed

lemma login_required_User:
  "request_user request = User u \<Longrightarrow> login_required view db request = view db request"
  by (simp add: login_required_def)

lemma login_required_Anonymous:
  "request_user request = AnonymousUser \<Longrightarrow>
     login_required view db request = (Inr (Redirect login_url), db)"
  by (simp add: login_required_def)

lemma edit_comment_found:
  assumes "request_user request = User u" and "get_comment_or_404 db cid = Inr c"
  shows "edit_comment form_class db request pid cid =
     (if comment_author c \<noteq> user_id u then (Inr (Redirect (blog_post_detail pid)), db)
      else if request_POST request = [] then
        (Inr (Render ''blog/comment.html'' (comment_context (Some (Unbound c)) c)), db)
      else
        (case form_class db (request_POST request) c of
           Invalid errs \<Rightarrow>
             (Inr (Render ''blog/comment.html''
                    (comment_context (Some (BoundInvalid (request_POST request) c errs)) c)), db)
         | Valid c' \<Rightarrow> (Inr (Redirect (blog_post_detail pid)), update_comment db cid c')))"
proof -
  have cid: "comment_id c = cid" using assms(2) by (simp add: get_comment_or_404_Inr)
  show ?thesis
    by (cases "form_class db (request_POST request) c")
       (simp_all add: edit_comment_def login_required_User [OF assms(1)] assms make_form_def
          Let_def cid)
qed

lemma delete_comment_found:
  assumes "request_user request = User u" and "get_comment_or_404 db cid = Inr c"
  shows "delete_comment db request pid cid =
     (if comment_author c \<noteq> user_id u then (Inr (Redirect (blog_post_detail pid)), db)
      else if request_method request = POST then
        (Inr (Redirect (blog_post_detail pid)), delete_comment_row db c)
      else (Inr (Render ''blog/comment.html'' (comment_context None c)), db))"
  by (simp add: delete_comment_def login_required_User [OF assms(1)] assms)

lemma test_func_found:
  assumes "request_user request = User u" and "get_object db pid = Inr p"
  shows "test_func db request pid = Inr (post_author p = user_id u \<or> is_superuser u)"
  by (simp add: test_func_def assms)

lemma PostEditView_found:
  assumes "request_user request = User u" and "get_object db pid = Inr p"
  shows "PostEditView form_class db request pid =
     (if \<not> (post_author p = user_id u \<or> is_superuser u)
      then (Inr (Redirect (blog_post_detail (post_id p))), db)
      else if request_method request = POST then
        (case form_class db (request_POST request) p of
           Invalid errs \<Rightarrow>
             (Inr (Render ''blog/create.html''
                    (create_context (BoundInvalid (request_POST request) p errs))), db)
         | Valid p' \<Rightarrow> (Inr (Redirect (blog_post_detail (post_id p))),
                         update_post db (post_id p) p'))
      else (Inr (Render ''blog/create.html'' (create_context (Unbound p))), db))"
  by (cases "form_class db (request_POST request) p")
     (simp_all add: PostEditView_def LoginRequiredMixin_dispatch_def
        UserPassesTestMixin_dispatch_def test_func_found [OF assms] handle_no_permission_def
        assms make_form_def Let_def)

lemma PostDeleteView_found:
  assumes "request_user request = User u" and "get_object db pid = Inr p"
  shows "PostDeleteView db request pid =
     (if \<not> (post_author p = user_id u \<or> is_superuser u)
      then (Inr (Redirect (blog_post_detail (post_id p))), db)
      else if request_method request = POST then
        (Inr (Redirect blog_index), delete_post_row db p)
      else (Inr (Render ''blog/create.html'' (create_context (Unbound p))), db))"
  by (simp add: PostDeleteView_def LoginRequiredMixin_dispatch_def
        UserPassesTestMixin_dispatch_def test_func_found [OF assms] handle_no_permission_def
        assms)

lemma sample_lookups:
  "get_comment_or_404 sample_db 1 = Inr comment1"
  "get_object sample_db 1 = Inr post1"
  "get_post_or_404 sample_db 1 = Inr post1"
  by (simp_all add: get_comment_or_404_def get_object_def get_post_or_404_def get_queryset_def
        sample_defs)

section \<open>Authorization\<close>

text \<open>
  C2, as the code has it. For an authenticated user, the test of the views that edit
  and delete a post is true exactly when the user is the post's author or a superuser,
  and a user who passes it gets the form on GET and deletes the post on POST. The
  views that edit and delete a comment compare the comment's author with the user and
  nothing else: a user who is not the author is redirected and the store is left as it
  was, superuser or not; the author gets the form on GET and deletes the comment on
  POST. A user who passes the check and submits the edit form has the row rewritten
  when the form is valid, and gets the form with its errors otherwise.
\<close>

theorem authorization_checks:
  assumes "request_user request = User u"
  shows "(get_object db pid = Inr p \<longrightarrow>
            test_func db request pid = Inr (post_author p = user_id u \<or> is_superuser u))
       \<and> (get_object db pid = Inr p \<and> (post_author p = user_id u \<or> is_superuser u)
            \<and> request_method request = GET \<longrightarrow>
            PostEditView post_form db request pid =
              (Inr (Render ''blog/create.html'' (create_context (Unbound p))), db)
            \<and> PostDeleteView db request pid =
              (Inr (Render ''blog/create.html'' (create_context (Unbound p))), db))
       \<and> (get_object db pid = Inr p \<and> (post_author p = user_id u \<or> is_superuser u)
            \<and> request_method request = POST \<longrightarrow>
            PostDeleteView db request pid = (Inr (Redirect blog_index), delete_post_row db p))
       \<and> (get_comment_or_404 db cid = Inr c \<and> comment_author c \<noteq> user_id u \<longrightarrow>
            edit_comment comment_form db request pid cid =
              (Inr (Redirect (blog_post_detail pid)), db)
            \<and> delete_comment db request pid cid = (Inr (Redirect (blog_post_detail pid)), db))
       \<and> (get_comment_or_404 db cid = Inr c \<and> comment_author c = user_id u
            \<and> request_method request = GET \<longrightarrow>
            edit_comment comment_form db request pid cid =
              (Inr (Render ''blog/comment.html'' (comment_context (Some (Unbound c)) c)), db)
            \<and> delete_comment db request pid cid =
              (Inr (Render ''blog/comment.html'' (comment_context None c)), db))
       \<and> (get_comment_or_404 db cid = Inr c \<and> comment_author c = user_id u
            \<and> request_method request = POST \<longrightarrow>
            delete_comment db request pid cid =
              (Inr (Redirect (blog_post_detail pid)), delete_comment_row db c))
       \<and> (get_comment_or_404 db cid = Inr c \<and> comment_author c = user_id u
            \<and> request_POST request \<noteq> [] \<longrightarrow>
            edit_comment comment_form db request pid cid =
              (case comment_form db (request_POST request) c of
                 Invalid errs \<Rightarrow>
                   (Inr (Render ''blog/comment.html''
                          (comment_context (Some (BoundInvalid (request_POST request) c errs)) c)),
                    db)
               | Valid c' \<Rightarrow>
                   (Inr (Redirect (blog_post_detail pid)), update_comment db cid c')))
       \<and> (get_object db pid = Inr p \<and> (post_author p = user_id u \<or> is_superuser u)
            \<and> request_method request = POST \<longrightarrow>
            PostEditView post_form db request pid =
              (case post_form db (request_POST request) p of
                 Invalid errs \<Rightarrow>
                   (Inr (Render ''blog/create.html''
                          (create_context (BoundInvalid (request_POST request) p errs))), db)
               | Valid p' \<Rightarrow>
                   (Inr (Redirect (blog_post_detail pid)), update_post db pid p')))"
proof -
  have key: "get_object db pid = Inr p \<Longrightarrow> post_id p = pid"
    by (simp add: get_object_Inr)
  show ?thesis
    using assms key
    by (auto simp: test_func_found PostEditView_found PostDeleteView_found edit_comment_found
        delete_comment_found request_POST_def)
qed

theorem authorization_checks_witness:
  "request_user (get_request (User root) []) = User root
   \<and> get_object sample_db 1 = Inr post1 \<and> post_author post1 \<noteq> user_id root \<and> is_superuser root
   \<and> test_func sample_db (get_request (User root) []) 1 = Inr True
   \<and> PostEditView sample_post_form sample_db (get_request (User root) []) 1 =
        (Inr (Render ''blog/create.html'' (create_context (Unbound post1))), sample_db)
   \<and> get_comment_or_404 sample_db 1 = Inr comment1 \<and> comment_author comment1 \<noteq> user_id root
   \<and> edit_comment CommentForm sample_db (get_request (User root) []) 1 1 =
        (Inr (Redirect (blog_post_detail 1)), sample_db)
   \<and> delete_comment sample_db (post_request (User root) []) 1 1 =
        (Inr (Redirect (blog_post_detail 1)), sample_db)
   \<and> comment_author comment1 = user_id bob
   \<and> delete_comment sample_db (get_request (User bob) []) 1 1 =
        (Inr (Render ''blog/comment.html'' (comment_context None comment1)), sample_db)
   \<and> delete_comment sample_db (post_request (User bob) []) 1 1 =
        (Inr (Redirect (blog_post_detail 1)), delete_comment_row sample_db comment1)
   \<and> comments (delete_comment_row sample_db comment1) = [comment2]
   \<and> edit_comment CommentForm sample_db (post_request (User bob) [(''text'', ''Edited'')]) 1 1 =
        (Inr (Redirect (blog_post_detail 1)),
         update_comment sample_db 1 (comment1\<lparr>comment_text := ''Edited''\<rparr>))
   \<and> comments (update_comment sample_db 1 (comment1\<lparr>comment_text := ''Edited''\<rparr>)) =
        [comment1\<lparr>comment_text := ''Edited''\<rparr>, comment2]"
proof -
  have users: "request_user (get_request (User root) []) = User root"
    "request_user (post_request (User root) []) = User root"
    "request_user (get_request (User bob) []) = User bob"
    "request_user (post_request (User bob) []) = User bob"
    "request_method (get_request (User root) []) = GET"
    "request_method (get_request (User bob) []) = GET"
    "request_method (post_request (User bob) []) = POST"
    by (simp_all add: get_request_def post_request_def)
  have editor: "request_user (post_request (User bob) [(''text'', ''Edited'')]) = User bob"
    "request_POST (post_request (User bob) [(''text'', ''Edited'')]) = [(''text'', ''Edited'')]"
    by (simp_all add: post_request_def request_POST_def)
  have edited: "CommentForm sample_db [(''text'', ''Edited'')] comment1
                  = Valid (comment1\<lparr>comment_text := ''Edited''\<rparr>)"
    "comments (update_comment sample_db 1 (comment1\<lparr>comment_text := ''Edited''\<rparr>)) =
        [comment1\<lparr>comment_text := ''Edited''\<rparr>, comment2]"
    by (simp_all add: CommentForm_def update_comment_def sample_defs)
  have facts: "post_author post1 \<noteq> user_id root" "is_superuser root"
    "comment_author comment1 \<noteq> user_id root" "comment_author comment1 = user_id bob"
    "comments (delete_comment_row sample_db comment1) = [comment2]"
    by (simp_all add: delete_comment_row_def sample_defs)
  show ?thesis
    using authorization_checks [OF users(1), of sample_db 1 post1 sample_post_form 1 comment1 CommentForm]
      authorization_checks [OF users(2), of sample_db 1 post1 sample_post_form 1 comment1 CommentForm]
      authorization_checks [OF users(3), of sample_db 1 post1 sample_post_form 1 comment1 CommentForm]
      authorization_checks [OF users(4), of sample_db 1 post1 sample_post_form 1 comment1 CommentForm]
      authorization_checks [OF editor(1), of sample_db 1 post1 sample_post_form 1 comment1 CommentForm]
      users facts sample_lookups editor edited
    by simp
qed

text \<open>
  The claim as stated fails: \<open>root\<close> is a superuser and not the author of the first
  comment, and both comment views turn \<open>root\<close> away and leave the comment as it was.
\<close>

theorem superuser_comment_counterexample:
  "user_is_superuser (User root)
   \<and> get_comment_or_404 sample_db 1 = Inr comment1
   \<and> edit_comment CommentForm sample_db (get_request (User root) []) 1 1 =
        (Inr (Redirect (blog_post_detail 1)), sample_db)
   \<and> edit_comment CommentForm sample_db (post_request (User root) [(''text'', ''changed'')]) 1 1 =
        (Inr (Redirect (blog_post_detail 1)), sample_db)
   \<and> delete_comment sample_db (get_request (User root) []) 1 1 =
        (Inr (Redirect (blog_post_detail 1)), sample_db)
   \<and> delete_comment sample_db (post_request (User root) []) 1 1 =
        (Inr (Redirect (blog_post_detail 1)), sample_db)"
proof -
  have users: "request_user (get_request (User root) []) = User root"
    "request_user (post_request (User root) d) = User root" for d
    by (simp_all add: get_request_def post_request_def)
  have facts: "user_is_superuser (User root)" "comment_author comment1 \<noteq> user_id root"
    by (simp_all add: sample_defs)
  show ?thesis
    using facts sample_lookups
      edit_comment_found [OF users(1) sample_lookups(1), of CommentForm 1]
      edit_comment_found [OF users(2) sample_lookups(1), of CommentForm "[(''text'', ''changed'')]" 1]
      delete_comment_found [OF users(1) sample_lookups(1), of 1]
      delete_comment_found [OF users(2) sample_lookups(1), of "[]" 1]
    by simp
qed

text \<open>
  C3, as the code has it. Let an authenticated user who is no superuser ask to edit or
  delete a post or a comment of another author. The store is left as it was and the
  response is a redirect, never an exception: for a post, to the detail page of that
  post; for a comment, to the detail route of the post key that the request names,
  whatever post the comment belongs to.
\<close>

theorem unauthorized_mutation_redirects:
  assumes "request_user request = User u" and "\<not> is_superuser u"
  shows "(get_object db pid = Inr p \<and> post_author p \<noteq> user_id u \<longrightarrow>
            PostEditView post_form db request pid =
              (Inr (Redirect (blog_post_detail (post_id p))), db)
            \<and> PostDeleteView db request pid =
              (Inr (Redirect (blog_post_detail (post_id p))), db)
            \<and> post_id p = pid)
       \<and> (get_comment_or_404 db cid = Inr c \<and> comment_author c \<noteq> user_id u \<longrightarrow>
            edit_comment comment_form db request pid' cid =
              (Inr (Redirect (blog_post_detail pid')), db)
            \<and> delete_comment db request pid' cid =
              (Inr (Redirect (blog_post_detail pid')), db))"
  using assms
  by (auto simp: PostEditView_found PostDeleteView_found edit_comment_found
      delete_comment_found dest: get_object_Inr)

theorem unauthorized_mutation_redirects_witness:
  "request_user (post_request (User bob) [(''title'', ''Mine'')]) = User bob
   \<and> \<not> is_superuser bob
   \<and> get_object sample_db 1 = Inr post1 \<and> post_author post1 \<noteq> user_id bob
   \<and> PostEditView sample_post_form sample_db (post_request (User bob) [(''title'', ''Mine'')]) 1 =
        (Inr (Redirect (blog_post_detail 1)), sample_db)
   \<and> PostDeleteView sample_db (post_request (User bob) [(''title'', ''Mine'')]) 1 =
        (Inr (Redirect (blog_post_detail 1)), sample_db)
   \<and> request_user (post_request (User alice) [(''text'', ''Mine'')]) = User alice
   \<and> \<not> is_superuser alice
   \<and> get_comment_or_404 sample_db 1 = Inr comment1 \<and> comment_author comment1 \<noteq> user_id alice
   \<and> edit_comment CommentForm sample_db (post_request (User alice) [(''text'', ''Mine'')]) 1 1 =
        (Inr (Redirect (blog_post_detail 1)), sample_db)
   \<and> delete_comment sample_db (post_request (User alice) [(''text'', ''Mine'')]) 1 1 =
        (Inr (Redirect (blog_post_detail 1)), sample_db)"
proof -
  have users: "request_user (post_request (User bob) [(''title'', ''Mine'')]) = User bob"
    "request_user (post_request (User alice) [(''text'', ''Mine'')]) = User alice"
    by (simp_all add: post_request_def)
  have facts: "\<not> is_superuser bob" "\<not> is_superuser alice"
    "post_author post1 \<noteq> user_id bob" "comment_author comment1 \<noteq> user_id alice"
    "post_id post1 = 1"
    by (simp_all add: sample_defs)
  show ?thesis
    using unauthorized_mutation_redirects [OF users(1) facts(1),
        of sample_db 1 post1 sample_post_form 1 comment1 CommentForm 1]
      unauthorized_mutation_redirects [OF users(2) facts(2),
        of sample_db 1 post1 sample_post_form 1 comment1 CommentForm 1]
      users facts sample_lookups
    by simp
qed

text \<open>
  The claim as stated fails: the first comment belongs to post 1, \<open>alice\<close> is neither
  its author nor a superuser, and her requests under the post key 99, which no post
  has, are redirected to the detail route of 99.
\<close>

theorem comment_redirect_counterexample:
  "get_comment_or_404 sample_db 1 = Inr comment1
   \<and> comment_post comment1 = 1
   \<and> comment_author comment1 \<noteq> user_id alice \<and> \<not> is_superuser alice
   \<and> get_post_or_404 sample_db 99 = Inl Http404
   \<and> edit_comment CommentForm sample_db (post_request (User alice) [(''text'', ''Mine'')]) 99 1 =
        (Inr (Redirect (blog_post_detail 99)), sample_db)
   \<and> delete_comment sample_db (post_request (User alice) []) 99 1 =
        (Inr (Redirect (blog_post_detail 99)), sample_db)"
proof -
  have users: "request_user (post_request (User alice) d) = User alice" for d
    by (simp add: post_request_def)
  have facts: "comment_post comment1 = 1" "comment_author comment1 \<noteq> user_id alice"
    "\<not> is_superuser alice" "get_post_or_404 sample_db 99 = Inl Http404"
    by (simp_all add: get_post_or_404_def get_queryset_def sample_defs)
  show ?thesis
    using facts sample_lookups
      edit_comment_found [OF users sample_lookups(1), of CommentForm "[(''text'', ''Mine'')]" 99]
      delete_comment_found [OF users sample_lookups(1), of "[]" 99]
    by simp
qed

lemma add_comment_found:
  assumes "request_user request = User u" and "get_post_or_404 db pid = Inr p"
  shows "add_comment form_class now db request pid =
     (case form_class db (request_POST request) new_comment of
        Invalid errs \<Rightarrow> (Inr (Redirect (blog_post_detail pid)), db)
      | Valid c \<Rightarrow>
          (Inr (Redirect (blog_post_detail pid)),
           insert_comment now db (c\<lparr>comment_author := user_id u, comment_post := pid\<rparr>)))"
proof -
  have pid: "post_id p = pid" using assms(2) by (simp add: get_post_or_404_Inr)
  show ?thesis
    by (cases "form_class db (request_POST request) new_comment")
       (simp_all add: add_comment_def login_required_User [OF assms(1)] assms make_form_def
          Let_def pid)
qed

lemma add_comment_missing:
  assumes "request_user request = User u" and "get_post_or_404 db pid = Inl e"
  shows "add_comment form_class now db request pid = (Inl e, db)"
  by (simp add: add_comment_def login_required_User [OF assms(1)] assms)

lemma PostCreateView_User:
  assumes "request_user request = User u"
  shows "PostCreateView form_class now db request =
     (if request_method request = POST then
        (case form_class db (request_POST request) new_post of
           Invalid errs \<Rightarrow>
             (Inr (Render ''blog/create.html''
                    (create_context (BoundInvalid (request_POST request) new_post errs))), db)
         | Valid inst \<Rightarrow>
             (Inr (Redirect (blog_profile (username u))),
              insert_post now db (inst\<lparr>post_author := user_id u\<rparr>)))
      else (Inr (Render ''blog/create.html'' (create_context (Unbound new_post))), db))"
  by (cases "form_class db (request_POST request) new_post")
     (simp_all add: PostCreateView_def LoginRequiredMixin_dispatch_def
        PostCreateView_form_valid_def assms make_form_def Let_def)

text \<open>
  The views behind \<^verbatim>\<open>login_required\<close> and the view that creates a post send an
  anonymous user to the login page and leave the store as it was.
\<close>

lemma login_gated_views:
  assumes "request_user request = AnonymousUser"
  shows "add_comment comment_form now db request pid = (Inr (Redirect login_url), db)"
    and "edit_comment comment_form db request pid cid = (Inr (Redirect login_url), db)"
    and "delete_comment db request pid cid = (Inr (Redirect login_url), db)"
    and "PostCreateView post_form now db request = (Inr (Redirect login_url), db)"
  by (simp_all add: add_comment_def edit_comment_def delete_comment_def PostCreateView_def
      login_required_Anonymous [OF assms] LoginRequiredMixin_dispatch_def
      AccessMixin_handle_no_permission_def assms)

lemma anonymous_post_mutation:
  assumes "request_user request = AnonymousUser"
  shows "PostEditView post_form db request pid = handle_no_permission db request pid"
    and "PostDeleteView db request pid = handle_no_permission db request pid"
  by (simp_all add: PostEditView_def PostDeleteView_def LoginRequiredMixin_dispatch_def assms)

section \<open>Anonymous requests\<close>

text \<open>
  C6 at the requests where the code departs from it. An anonymous user who asks to
  edit or to delete the first post of the sample store is redirected to the detail
  page of the post, not to the login page: the view's own \<^verbatim>\<open>handle_no_permission\<close>
  answers for \<^verbatim>\<open>LoginRequiredMixin\<close> too. \<^verbatim>\<open>post_detail\<close> asks for no login: an
  anonymous POST with a comment text reaches the assignment of the author, which raises
  \<^verbatim>\<open>ValueError\<close>, and one with an empty text gets the page with the form's error.
  The store is left as it was each time.
\<close>

theorem anonymous_not_sent_to_login:
  "PostEditView post_form sample_db (get_request AnonymousUser []) 1 =
     (Inr (Redirect (blog_post_detail 1)), sample_db)
   \<and> PostEditView post_form sample_db (post_request AnonymousUser [(''title'', ''Taken'')]) 1 =
     (Inr (Redirect (blog_post_detail 1)), sample_db)
   \<and> PostDeleteView sample_db (post_request AnonymousUser []) 1 =
     (Inr (Redirect (blog_post_detail 1)), sample_db)
   \<and> post_detail CommentForm 1000 sample_db (post_request AnonymousUser [(''text'', ''Hi'')]) 1 =
     (Inl ValueError, sample_db)
   \<and> post_detail CommentForm 1000 sample_db (post_request AnonymousUser [(''text'', '''')]) 1 =
     (Inr (Render ''blog/detail.html''
            (detail_context post1 [comment1, comment2]
               (BoundInvalid [(''text'', '''')] new_comment [''text'']))), sample_db)"
proof -
  have anon: "request_user (get_request AnonymousUser q) = AnonymousUser"
    "request_user (post_request AnonymousUser d) = AnonymousUser" for q d
    by (simp_all add: get_request_def post_request_def)
  have redirect: "handle_no_permission sample_db request 1 =
                    (Inr (Redirect (blog_post_detail 1)), sample_db)" for request
    using sample_lookups(2) by (simp add: handle_no_permission_def post1_def)
  have published: "is_published post1" by (simp add: post1_def)
  have comments: "post_comments sample_db post1 = [comment1, comment2]"
    by (simp add: post_comments_def sample_defs)
  have forms: "CommentForm sample_db [(''text'', ''Hi'')] new_comment
                 = Valid (new_comment\<lparr>comment_text := ''Hi''\<rparr>)"
    "CommentForm sample_db [(''text'', '''')] new_comment = Invalid [''text'']"
    by (simp_all add: CommentForm_def)
  have posted: "request_method (post_request AnonymousUser d) = POST"
    "request_POST (post_request AnonymousUser d) = d" for d
    by (simp_all add: post_request_def request_POST_def)
  show ?thesis
    using redirect published comments forms
      post_detail_found [OF sample_lookups(3),
        of CommentForm 1000 "post_request AnonymousUser [(''text'', ''Hi'')]"]
      post_detail_found [OF sample_lookups(3),
        of CommentForm 1000 "post_request AnonymousUser [(''text'', '''')]"]
    by (simp add: anonymous_post_mutation anon posted)
qed

lemma CommentForm_empty:
  assumes "map_of (rev data) ''text'' = None \<or> map_of (rev data) ''text'' = Some []"
  shows "CommentForm db data inst = Invalid [''text'']"
  using assms by (auto simp: CommentForm_def)

section \<open>Submitting a comment\<close>

text \<open>
  C7, as the code has it. Let an authenticated user submit a comment for an existing
  post with the text missing or empty. \<^verbatim>\<open>add_comment\<close> creates no comment, leaves
  the store as it was and answers with a redirect to the detail route of the post: the
  form and its error are dropped. The form is shown again with its error only when the
  submission is posted to \<^verbatim>\<open>post_detail\<close>, by a user whom that view shows the post.
\<close>

theorem empty_comment_not_saved:
  assumes "request_user request = User u"
    and "get_post_or_404 db pid = Inr p"
    and "map_of (rev (request_POST request)) ''text'' = None
         \<or> map_of (rev (request_POST request)) ''text'' = Some []"
  shows "add_comment CommentForm now db request pid =
           (Inr (Redirect (blog_post_detail pid)), db)
       \<and> (request_method request = POST \<and> (is_published p \<or> post_author p = user_id u) \<longrightarrow>
            post_detail CommentForm now db request pid =
              (Inr (Render ''blog/detail.html''
                     (detail_context p (post_comments db p)
                        (BoundInvalid (request_POST request) new_comment [''text'']))), db))"
  using assms
  by (auto simp: add_comment_found post_detail_found CommentForm_empty)

theorem empty_comment_not_saved_witness:
  "request_user (post_request (User bob) [(''text'', '''')]) = User bob
   \<and> get_post_or_404 sample_db 1 = Inr post1
   \<and> map_of (rev (request_POST (post_request (User bob) [(''text'', '''')]))) ''text'' = Some []
   \<and> add_comment CommentForm 1000 sample_db (post_request (User bob) [(''text'', '''')]) 1 =
        (Inr (Redirect (blog_post_detail 1)), sample_db)
   \<and> post_detail CommentForm 1000 sample_db (post_request (User bob) [(''text'', '''')]) 1 =
        (Inr (Render ''blog/detail.html''
               (detail_context post1 [comment1, comment2]
                  (BoundInvalid [(''text'', '''')] new_comment [''text'']))), sample_db)"
proof -
  have user: "request_user (post_request (User bob) [(''text'', '''')]) = User bob"
    by (simp add: post_request_def)
  have posted: "request_POST (post_request (User bob) [(''text'', '''')]) = [(''text'', '''')]"
    "request_method (post_request (User bob) [(''text'', '''')]) = POST"
    by (simp_all add: post_request_def request_POST_def)
  have empty: "map_of (rev (request_POST (post_request (User bob) [(''text'', '''')]))) ''text'' = None
         \<or> map_of (rev (request_POST (post_request (User bob) [(''text'', '''')]))) ''text'' = Some []"
    by (simp add: posted)
  have facts: "is_published post1" "post_comments sample_db post1 = [comment1, comment2]"
    by (simp_all add: post_comments_def sample_defs)
  show ?thesis
    using empty_comment_not_saved [OF user sample_lookups(3) empty, of 1000]
      user posted facts sample_lookups(3)
    by simp
qed

text \<open>
  The claim as stated fails: \<open>bob\<close> submits an empty text to \<^verbatim>\<open>add_comment\<close> and is
  redirected; no form is rendered.
\<close>

theorem empty_comment_counterexample:
  "add_comment CommentForm 1000 sample_db (post_request (User bob) [(''text'', '''')]) 1 =
     (Inr (Redirect (blog_post_detail 1)), sample_db)"
proof -
  have user: "request_user (post_request (User bob) [(''text'', '''')]) = User bob"
    by (simp add: post_request_def)
  have form: "CommentForm sample_db (request_POST (post_request (User bob) [(''text'', '''')]))
                new_comment = Invalid [''text'']"
    by (simp add: CommentForm_def post_request_def request_POST_def)
  show ?thesis
    using add_comment_found [OF user sample_lookups(3), of CommentForm 1000] form
    by simp
qed

section \<open>The author of a created resource\<close>

text \<open>
  C9. Whatever the form class does with the submitted data, the views that create a
  post or a comment change the store in one way only: they append one row, and its
  author is the authenticated user of the request. An anonymous request creates
  nothing. So two requests of the same user, however their submitted data differ,
  create rows of the same author.
\<close>

theorem author_stamped_at_creation:
  "(case request_user request of
      AnonymousUser \<Rightarrow>
        snd (PostCreateView post_form now db request) = db
        \<and> snd (add_comment comment_form now db request pid) = db
        \<and> snd (post_detail comment_form now db request pid) = db
    | User u \<Rightarrow>
        (snd (PostCreateView post_form now db request) = db
         \<or> (\<exists>p. posts (snd (PostCreateView post_form now db request)) = posts db @ [p]
                \<and> post_author p = user_id u
                \<and> comments (snd (PostCreateView post_form now db request)) = comments db))
        \<and> (snd (add_comment comment_form now db request pid) = db
         \<or> (\<exists>c. comments (snd (add_comment comment_form now db request pid)) = comments db @ [c]
                \<and> comment_author c = user_id u
                \<and> posts (snd (add_comment comment_form now db request pid)) = posts db))
        \<and> (snd (post_detail comment_form now db request pid) = db
         \<or> (\<exists>c. comments (snd (post_detail comment_form now db request pid)) = comments db @ [c]
                \<and> comment_author c = user_id u
                \<and> posts (snd (post_detail comment_form now db request pid)) = posts db)))
   \<and> (\<forall>request' p p'. request_user request' = request_user request
          \<and> posts (snd (PostCreateView post_form now db request)) = posts db @ [p]
          \<and> posts (snd (PostCreateView post_form now db request')) = posts db @ [p']
        \<longrightarrow> post_author p = post_author p')
   \<and> (\<forall>request' c c'. request_user request' = request_user request
          \<and> comments (snd (add_comment comment_form now db request pid)) = comments db @ [c]
          \<and> comments (snd (add_comment comment_form now db request' pid)) = comments db @ [c']
        \<longrightarrow> comment_author c = comment_author c')"
proof -
  have create: "snd (PostCreateView post_form now db r) = db
         \<or> (\<exists>p. posts (snd (PostCreateView post_form now db r)) = posts db @ [p]
                \<and> post_author p = user_id u
                \<and> comments (snd (PostCreateView post_form now db r)) = comments db)"
    if "request_user r = User u" for r u
    by (cases "post_form db (request_POST r) new_post")
       (simp_all add: PostCreateView_User [OF that] insert_post_def)
  have add: "snd (add_comment comment_form now db r pid) = db
         \<or> (\<exists>c. comments (snd (add_comment comment_form now db r pid)) = comments db @ [c]
                \<and> comment_author c = user_id u
                \<and> posts (snd (add_comment comment_form now db r pid)) = posts db)"
    if "request_user r = User u" for r u
  proof (cases "get_post_or_404 db pid")
    case (Inl e)
    then show ?thesis by (simp add: add_comment_missing [OF that])
  next
    case (Inr p)
    then show ?thesis
      by (cases "comment_form db (request_POST r) new_comment")
         (simp_all add: add_comment_found [OF that Inr] insert_comment_def)
  qed
  have detail: "snd (post_detail comment_form now db r pid) = db
         \<or> (\<exists>c. comments (snd (post_detail comment_form now db r pid)) = comments db @ [c]
                \<and> comment_author c = user_id u
                \<and> posts (snd (post_detail comment_form now db r pid)) = posts db)"
    if "request_user r = User u" for r u
  proof (cases "get_post_or_404 db pid")
    case (Inl e)
    then show ?thesis by (simp add: post_detail_def)
  next
    case (Inr p)
    then show ?thesis
      by (cases "comment_form db (request_POST r) new_comment")
         (simp_all add: post_detail_found [OF Inr] that insert_comment_def)
  qed
  have anon: "snd (PostCreateView post_form now db r) = db
        \<and> snd (add_comment comment_form now db r pid) = db
        \<and> snd (post_detail comment_form now db r pid) = db"
    if "request_user r = AnonymousUser" for r
  proof -
    have "snd (post_detail comment_form now db r pid) = db"
    proof (cases "get_post_or_404 db pid")
      case (Inl e)
      then show ?thesis by (simp add: post_detail_def)
    next
      case (Inr p)
      then show ?thesis
        by (cases "comment_form db (request_POST r) new_comment")
           (simp_all add: post_detail_found [OF Inr] that)
    qed
    then show ?thesis by (simp add: login_gated_views [OF that])
  qed
  have same_post: "post_author p = post_author p'"
    if "request_user r' = request_user r"
      and "posts (snd (PostCreateView post_form now db r)) = posts db @ [p]"
      and "posts (snd (PostCreateView post_form now db r')) = posts db @ [p']" for r r' p p'
  proof (cases "request_user r")
    case AnonymousUser
    with that anon [of r] show ?thesis by simp
  next
    case (User u)
    with that create [of r u] create [of r' u] show ?thesis by auto
  qed
  have same_comment: "comment_author c = comment_author c'"
    if "request_user r' = request_user r"
      and "comments (snd (add_comment comment_form now db r pid)) = comments db @ [c]"
      and "comments (snd (add_comment comment_form now db r' pid)) = comments db @ [c']"
    for r r' c c'
  proof (cases "request_user r")
    case AnonymousUser
    with that anon [of r] show ?thesis by simp
  next
    case (User u)
    with that add [of r u] add [of r' u] show ?thesis by auto
  qed
  show ?thesis
  proof (intro conjI allI impI)
    show "case request_user request of
      AnonymousUser \<Rightarrow>
        snd (PostCreateView post_form now db request) = db
        \<and> snd (add_comment comment_form now db request pid) = db
        \<and> snd (post_detail comment_form now db request pid) = db
    | User u \<Rightarrow>
        (snd (PostCreateView post_form now db request) = db
         \<or> (\<exists>p. posts (snd (PostCreateView post_form now db request)) = posts db @ [p]
                \<and> post_author p = user_id u
                \<and> comments (snd (PostCreateView post_form now db request)) = comments db))
        \<and> (snd (add_comment comment_form now db request pid) = db
         \<or> (\<exists>c. comments (snd (add_comment comment_form now db request pid)) = comments db @ [c]
                \<and> comment_author c = user_id u
                \<and> posts (snd (add_comment comment_form now db request pid)) = posts db))
        \<and> (snd (post_detail comment_form now db request pid) = db
         \<or> (\<exists>c. comments (snd (post_detail comment_form now db request pid)) = comments db @ [c]
                \<and> comment_author c = user_id u
                \<and> posts (snd (post_detail comment_form now db request pid)) = posts db))"
    proof (cases "request_user request")
      case AnonymousUser
      then show ?thesis using anon [of request] by simp
    next
      case (User u)
      then show ?thesis using create [of request u] add [of request u] detail [of request u]
        by simp
    qed
  next
    fix request' p p'
    assume "request_user request' = request_user request
          \<and> posts (snd (PostCreateView post_form now db request)) = posts db @ [p]
          \<and> posts (snd (PostCreateView post_form now db request')) = posts db @ [p']"
    then show "post_author p = post_author p'" using same_post by blast
  next
    fix request' c c'
    assume "request_user request' = request_user request
          \<and> comments (snd (add_comment comment_form now db request pid)) = comments db @ [c]
          \<and> comments (snd (add_comment comment_form now db request' pid)) = comments db @ [c']"
    then show "comment_author c = comment_author c'" using same_comment by blast
  qed
qed

theorem author_stamped_at_creation_witness:
  "sample_post_form sample_db [(''title'', ''T''), (''author'', ''1'')] new_post =
     Valid (new_post\<lparr>title := ''T'', post_author := 1\<rparr>)
   \<and> sample_post_form sample_db [(''title'', ''T''), (''author'', ''3'')] new_post =
     Valid (new_post\<lparr>title := ''T'', post_author := 3\<rparr>)
   \<and> request_user (post_request (User bob) [(''title'', ''T''), (''author'', ''1'')]) =
       request_user (post_request (User bob) [(''title'', ''T''), (''author'', ''3'')])
   \<and> posts (snd (PostCreateView sample_post_form 1000 sample_db
                   (post_request (User bob) [(''title'', ''T''), (''author'', ''1'')]))) =
       posts sample_db @ [new_post\<lparr>post_id := 4, title := ''T'', post_author := 2,
                                   post_created_at := 1000\<rparr>]
   \<and> posts (snd (PostCreateView sample_post_form 1000 sample_db
                   (post_request (User bob) [(''title'', ''T''), (''author'', ''3'')]))) =
       posts sample_db @ [new_post\<lparr>post_id := 4, title := ''T'', post_author := 2,
                                   post_created_at := 1000\<rparr>]
   \<and> comments (snd (add_comment sample_comment_form 1000 sample_db
                      (post_request (User bob) [(''text'', ''Hi''), (''author'', ''1'')]) 1)) =
       comments sample_db @ [\<lparr>comment_id = 3, comment_text = ''Hi'', comment_post = 1,
                              comment_author = 2, comment_created_at = 1000\<rparr>]
   \<and> comments (snd (add_comment sample_comment_form 1000 sample_db
                      (post_request (User bob) [(''text'', ''Hi''), (''author'', ''3'')]) 1)) =
       comments sample_db @ [\<lparr>comment_id = 3, comment_text = ''Hi'', comment_post = 1,
                              comment_author = 2, comment_created_at = 1000\<rparr>]"
proof -
  have user: "request_user (post_request (User bob) d) = User bob" for d
    by (simp add: post_request_def)
  have posted: "request_method (post_request (User bob) d) = POST"
    "request_POST (post_request (User bob) d) = d" for d
    by (simp_all add: post_request_def request_POST_def)
  have ints: "read_decimal ''1'' = Some 1" "read_decimal ''3'' = Some 3"
    by (simp_all add: read_decimal_def is_digit_def digit_value_def)
  have keys: "next_post_id sample_db = 4" "next_comment_id sample_db = 3" "user_id bob = 2"
    by (simp_all add: sample_db_def bob_def)
  have post_forms:
    "sample_post_form sample_db [(''title'', ''T''), (''author'', ''1'')] new_post =
       Valid (new_post\<lparr>title := ''T'', post_author := 1\<rparr>)"
    "sample_post_form sample_db [(''title'', ''T''), (''author'', ''3'')] new_post =
       Valid (new_post\<lparr>title := ''T'', post_author := 3\<rparr>)"
    by (simp_all add: sample_post_form_def submitted_author_def ints)
  have comment_forms:
    "sample_comment_form sample_db [(''text'', ''Hi''), (''author'', ''1'')] new_comment =
       Valid (new_comment\<lparr>comment_text := ''Hi'', comment_author := 1\<rparr>)"
    "sample_comment_form sample_db [(''text'', ''Hi''), (''author'', ''3'')] new_comment =
       Valid (new_comment\<lparr>comment_text := ''Hi'', comment_author := 3\<rparr>)"
    by (simp_all add: sample_comment_form_def submitted_author_def ints)
  have created_post:
    "posts (snd (PostCreateView sample_post_form 1000 sample_db (post_request (User bob) d))) =
       posts sample_db @ [new_post\<lparr>post_id := 4, title := ''T'', post_author := 2,
                                   post_created_at := 1000\<rparr>]"
    if "sample_post_form sample_db d new_post = Valid (new_post\<lparr>title := ''T'', post_author := a\<rparr>)"
    for d a
    using that PostCreateView_User [OF user, of sample_post_form 1000 sample_db d]
    by (simp add: posted insert_post_def keys new_post_def)
  have created_comment:
    "comments (snd (add_comment sample_comment_form 1000 sample_db (post_request (User bob) d) 1)) =
       comments sample_db @ [\<lparr>comment_id = 3, comment_text = ''Hi'', comment_post = 1,
                              comment_author = 2, comment_created_at = 1000\<rparr>]"
    if "sample_comment_form sample_db d new_comment =
          Valid (new_comment\<lparr>comment_text := ''Hi'', comment_author := a\<rparr>)"
    for d a
    using that add_comment_found [OF user sample_lookups(3), of sample_comment_form 1000 d]
    by (simp add: posted insert_comment_def keys new_comment_def)
  show ?thesis
    using author_stamped_at_creation
        [where request = "post_request (User bob) [(''title'', ''T''), (''author'', ''1'')]"
           and post_form = sample_post_form and now = 1000 and db = sample_db
           and comment_form = sample_comment_form and pid = 1]
      post_forms created_post [OF post_forms(1)] created_post [OF post_forms(2)]
      created_comment [OF comment_forms(1)] created_comment [OF comment_forms(2)]
    by (simp add: user)
qed

end
